theory Spec2Isabelle
  imports Complex_Main "HOL-Library.Word" "HOL-Library.Multiset"
begin

section \<open>Leela Zero search controller and GTP option handling\<close>

text \<open>
  Conventions of the embedding.
  \<^item> Where a cast or a wrap-around of machine integers can matter (the memory
    configuration), \<open>size_t\<close> is \<open>64 word\<close> and \<open>int\<close> is \<open>32 word\<close>, compared as a
    signed value. Elsewhere the code only copies, compares and counts, and integers are
    \<open>int\<close> or \<open>nat\<close>.
  \<^item> A \<open>float\<close> value is modelled by the real number it denotes. Where the controller
    computes with floats (the thresholds for resigning, the estimate of the playouts
    left), the arithmetic is a parameter of the functions, so that its rounding is part
    of the model. The statistics of a node are accumulated as real numbers.
  \<^item> Constants that are declared in the headers of the program (\<open>UCTSearch.h\<close>,
    \<open>NNCache.h\<close>, \<open>GTP.h\<close>) are parameters of the functions that use them.
  \<^item> \<open>assert\<close> is a branch of the model: a failed assertion is the result
    \<open>AssertionFailed\<close>. Where the code goes on in a defined way when assertions are
    compiled out, the parameter \<open>ndebug\<close> tells whether they are.
  \<^item> Methods of \<open>UCTNode\<close>, whose implementation is in another file of the program, are
    modelled from the spec where they are needed; each such definition says so.
\<close>

subsection \<open>GTP: the \<open>playouts\<close> option of \<open>lz-setoption\<close>\<close>

text \<open>The configuration globals and the limits held by the search object.\<close>

record gtp_config =
  cfg_allow_pondering :: bool
  cfg_max_playouts :: int
  cfg_max_visits :: int
  m_maxplayouts :: int
  m_maxvisits :: int

text \<open>\<open>UCTSearch::set_playout_limit\<close> and \<open>UCTSearch::set_visit_limit\<close>; the first argument
  is the constant \<open>UCTSearch::UNLIMITED_PLAYOUTS\<close>.\<close>

definition set_playout_limit :: "int \<Rightarrow> int \<Rightarrow> gtp_config \<Rightarrow> gtp_config" where
  "set_playout_limit UNLIMITED_PLAYOUTS playouts s =
     s\<lparr>m_maxplayouts := min playouts UNLIMITED_PLAYOUTS\<rparr>"

definition set_visit_limit :: "int \<Rightarrow> int \<Rightarrow> gtp_config \<Rightarrow> gtp_config" where
  "set_visit_limit UNLIMITED_PLAYOUTS visits s =
     s\<lparr>m_maxvisits := min visits UNLIMITED_PLAYOUTS\<rparr>"

datatype gtp_reply = gtp_ok string | gtp_fail string

text \<open>The branch \<open>name == "playouts"\<close> of \<open>GTP::execute_setoption\<close>; \<open>playouts\<close> is the
  integer read from the value stream.\<close>

definition setoption_playouts :: "int \<Rightarrow> int \<Rightarrow> gtp_config \<Rightarrow> gtp_config \<times> gtp_reply" where
  "setoption_playouts UNLIMITED_PLAYOUTS playouts s =
     (let s1 = s\<lparr>cfg_max_playouts := playouts\<rparr> in
      if cfg_max_playouts s1 = 0 then
        (set_playout_limit UNLIMITED_PLAYOUTS (cfg_max_visits s1)
           (s1\<lparr>cfg_max_playouts := UNLIMITED_PLAYOUTS\<rparr>), gtp_ok [])
      else if cfg_allow_pondering s1 then (s1, gtp_fail ''incorrect value'')
      else (set_playout_limit UNLIMITED_PLAYOUTS (cfg_max_visits s1) s1, gtp_ok []))"

text \<open>The branch \<open>name == "visits"\<close>.\<close>

definition setoption_visits :: "int \<Rightarrow> int \<Rightarrow> gtp_config \<Rightarrow> gtp_config \<times> gtp_reply" where
  "setoption_visits UNLIMITED_PLAYOUTS visits s =
     (let s1 = s\<lparr>cfg_max_visits := visits\<rparr>;
          s2 = (if cfg_max_visits s1 = 0 then s1\<lparr>cfg_max_visits := UNLIMITED_PLAYOUTS\<rparr> else s1)
      in (set_visit_limit UNLIMITED_PLAYOUTS (cfg_max_visits s2) s2, gtp_ok []))"

subsection \<open>GTP: memory configuration\<close>

text \<open>\<open>std::to_string\<close> on an unsigned value: its decimal digits.\<close>

definition digit_char :: "nat \<Rightarrow> char" where
  "digit_char d = char_of (48 + d)"

function to_string :: "nat \<Rightarrow> string" where
  "to_string n =
     (if n < 10 then [digit_char n] else to_string (n div 10) @ [digit_char (n mod 10)])"
  by pat_completeness auto
termination
  by (relation "measure id") auto

declare to_string.simps [simp del]

text \<open>The compile-time constants used by \<open>GTP::set_max_memory\<close>: \<open>MiB\<close>,
  \<open>UCTSearch::DEFAULT_MAX_MEMORY\<close>, \<open>UCTSearch::MIN_TREE_SPACE\<close>, \<open>NNCache::ENTRY_SIZE\<close>
  (all \<open>size_t\<close>) and \<open>NNCache::MIN_CACHE_COUNT\<close> (\<open>int\<close>). \<open>MiB\<close> and \<open>ENTRY_SIZE\<close> are
  divisors and nonzero in the program.\<close>

record memory_consts =
  MiB :: "64 word"
  DEFAULT_MAX_MEMORY :: "64 word"
  MIN_TREE_SPACE :: "64 word"
  ENTRY_SIZE :: "64 word"
  MIN_CACHE_COUNT :: "32 word"

text \<open>The configuration written by \<open>set_max_memory\<close>. The network cache is an object
  of its own; \<open>nncache_resize_calls\<close> records the arguments of the calls to
  \<open>s_network->nncache_resize\<close>, latest first.\<close>

record memory_config =
  cfg_max_memory :: "64 word"
  cfg_max_cache_ratio_percent :: "32 word"
  cfg_max_tree_size :: "64 word"
  nncache_resize_calls :: "32 word list"

text \<open>\<open>GTP::get_base_memory\<close>: with \<open>USE_OPENCL\<close> the estimated network size plus 85 MiB
  for each GPU (at least one), otherwise the estimated network size.\<close>

definition get_base_memory :: "memory_consts \<Rightarrow> bool \<Rightarrow> 64 word \<Rightarrow> 64 word \<Rightarrow> 64 word" where
  "get_base_memory K use_opencl estimated_size num_gpus =
     (if use_opencl then estimated_size + 85 * MiB K * max num_gpus 1 else estimated_size)"

datatype abort = AssertionFailed

text \<open>The local variables of \<open>GTP::set_max_memory\<close>. \<open>remove_overhead\<close> is the helper of
  that name, a parameter here, and \<open>base_memory\<close> the value of \<open>get_base_memory()\<close>. The
  \<open>int\<close> ratio is converted to \<open>size_t\<close> for the product (\<open>scast\<close>), and the entry count
  is cut to \<open>int\<close> (\<open>ucast\<close>).\<close>

definition effective_max_memory :: "memory_consts \<Rightarrow> 64 word \<Rightarrow> 64 word" where
  "effective_max_memory K max_memory = (if max_memory = 0 then DEFAULT_MAX_MEMORY K else max_memory)"

definition max_memory_for_search :: "memory_consts \<Rightarrow> 64 word \<Rightarrow> 64 word \<Rightarrow> 64 word" where
  "max_memory_for_search K base_memory max_memory = effective_max_memory K max_memory - base_memory"

definition max_cache_size :: "memory_consts \<Rightarrow> 64 word \<Rightarrow> 64 word \<Rightarrow> 32 word \<Rightarrow> 64 word" where
  "max_cache_size K base_memory max_memory cache_size_ratio_percent =
     max_memory_for_search K base_memory max_memory * scast cache_size_ratio_percent div 100"

definition max_cache_count ::
  "memory_consts \<Rightarrow> (64 word \<Rightarrow> 64 word) \<Rightarrow> 64 word \<Rightarrow> 64 word \<Rightarrow> 32 word \<Rightarrow> 32 word" where
  "max_cache_count K remove_overhead base_memory max_memory cache_size_ratio_percent =
     ucast (remove_overhead (max_cache_size K base_memory max_memory cache_size_ratio_percent)
            div ENTRY_SIZE K)"

definition max_tree_size :: "memory_consts \<Rightarrow> 64 word \<Rightarrow> 64 word \<Rightarrow> 32 word \<Rightarrow> 64 word" where
  "max_tree_size K base_memory max_memory cache_size_ratio_percent =
     max_memory_for_search K base_memory max_memory
     - max_cache_size K base_memory max_memory cache_size_ratio_percent"

text \<open>\<open>GTP::set_max_memory\<close>. The entry count is compared as a signed value; \<open>ndebug\<close>
  tells whether \<open>assert\<close> is compiled out.\<close>

definition set_max_memory ::
  "memory_consts \<Rightarrow> (64 word \<Rightarrow> 64 word) \<Rightarrow> bool \<Rightarrow> 64 word \<Rightarrow> 64 word \<Rightarrow> 32 word \<Rightarrow>
   memory_config \<Rightarrow> abort + (memory_config \<times> bool \<times> string)" where
  "set_max_memory K remove_overhead ndebug base_memory max_memory cache_size_ratio_percent s =
     (if effective_max_memory K max_memory < base_memory then
        Inr (s, False, ''Not enough memory for network. ''
                 @ to_string (unat (base_memory div MiB K)) @ '' MiB required.'')
      else if \<not> ndebug \<and> \<not> (1 \<le>s cache_size_ratio_percent \<and> cache_size_ratio_percent \<le>s 99)
      then Inl AssertionFailed
      else if max_cache_count K remove_overhead base_memory max_memory cache_size_ratio_percent
              <s MIN_CACHE_COUNT K
      then Inr (s, False, ''Not enough memory for cache.'')
      else if max_tree_size K base_memory max_memory cache_size_ratio_percent < MIN_TREE_SPACE K
      then Inr (s, False, ''Not enough memory for search tree.'')
      else
        Inr (s\<lparr>cfg_max_memory := effective_max_memory K max_memory,
               cfg_max_cache_ratio_percent := cache_size_ratio_percent,
               cfg_max_tree_size :=
                 remove_overhead (max_tree_size K base_memory max_memory cache_size_ratio_percent),
               nncache_resize_calls :=
                 max_cache_count K remove_overhead base_memory max_memory cache_size_ratio_percent
                 # nncache_resize_calls s\<rparr>,
             True,
             ''Setting max tree size to ''
               @ to_string (unat (max_tree_size K base_memory max_memory cache_size_ratio_percent
                                  div MiB K))
               @ '' MiB and cache size to ''
               @ to_string (unat (max_cache_size K base_memory max_memory cache_size_ratio_percent
                                  div MiB K))
               @ '' MiB.''))"

subsection \<open>Floating-point arithmetic\<close>

text \<open>
  Floats are compared as the real numbers they denote. What the arithmetic computes is
  given by a record: the conversion of an integer to \<open>float\<close>, the value of a decimal
  literal, the four operations, \<open>std::ceil\<close>, and the conversion of a float to \<open>int\<close>.
  The functions of the controller that compute with floats take this record as their
  first argument, and the properties proved about them hold for every such record.
\<close>

record float_arith =
  fl_of_int :: "int \<Rightarrow> real"
  fl_lit :: "real \<Rightarrow> real"
  fl_add :: "real \<Rightarrow> real \<Rightarrow> real"
  fl_sub :: "real \<Rightarrow> real \<Rightarrow> real"
  fl_mul :: "real \<Rightarrow> real \<Rightarrow> real"
  fl_div :: "real \<Rightarrow> real \<Rightarrow> real"
  fl_ceil :: "real \<Rightarrow> real"
  fl_to_int :: "real \<Rightarrow> int"

text \<open>
  IEEE 754 single precision, the \<open>float\<close> of the usual platforms, for the examples. A
  float has a significand of 24 bits: around a number \<open>x\<close> with \<open>2^e \<le> |x| < 2^(e+1)\<close>
  the floats are the multiples of \<open>2^(e-23)\<close>, and the multiples of \<open>2^-149\<close> below
  \<open>2^-126\<close>. \<open>quantum\<close> finds this spacing, searching upwards or downwards from the
  spacing \<open>2^-23\<close> of the floats between 1 and 2 through the range of the exponent.
  \<open>round_even\<close> rounds to the nearest integer, a tie to the even one, and \<open>binary32\<close>
  gives the float nearest to a real number. Every operation gives the float nearest to
  its exact result. Infinities and NaN are not modelled: a division by zero and a result
  beyond the largest float are not covered.
\<close>

fun quantum_up :: "nat \<Rightarrow> real \<Rightarrow> real \<Rightarrow> real" where
  "quantum_up 0 q x = q"
| "quantum_up (Suc n) q x = (if \<bar>x\<bar> < 16777216 * q then q else quantum_up n (2 * q) x)"

fun quantum_down :: "nat \<Rightarrow> real \<Rightarrow> real \<Rightarrow> real" where
  "quantum_down 0 q x = q"
| "quantum_down (Suc n) q x = (if 8388608 * q \<le> \<bar>x\<bar> then q else quantum_down n (q / 2) x)"

definition quantum :: "real \<Rightarrow> real" where
  "quantum x = (if 1 \<le> \<bar>x\<bar> then quantum_up 127 (1 / 8388608) x
                else quantum_down 126 (1 / 8388608) x)"

definition round_even :: "real \<Rightarrow> int" where
  "round_even r =
     (let f = \<lfloor>r\<rfloor> in
      if r - of_int f < 1 / 2 then f
      else if r - of_int f > 1 / 2 then f + 1
      else if even f then f else f + 1)"

definition binary32 :: "real \<Rightarrow> real" where
  "binary32 x = (if x = 0 then 0 else of_int (round_even (x / quantum x)) * quantum x)"

text \<open>\<open>(int)x\<close> on a float truncates towards zero. Out of the range of \<open>int\<close> the
  language leaves the result undefined; the conversion instruction of x86 then gives the
  least \<open>int\<close>, and so does \<open>ieee_single\<close>.\<close>

definition int_of_float :: "real \<Rightarrow> int" where
  "int_of_float x = (if x \<ge> 0 then \<lfloor>x\<rfloor> else \<lceil>x\<rceil>)"

definition ieee_single :: float_arith where
  "ieee_single =
     \<lparr>fl_of_int = (\<lambda>n. binary32 (of_int n)),
      fl_lit = binary32,
      fl_add = (\<lambda>a b. binary32 (a + b)),
      fl_sub = (\<lambda>a b. binary32 (a - b)),
      fl_mul = (\<lambda>a b. binary32 (a * b)),
      fl_div = (\<lambda>a b. binary32 (a / b)),
      fl_ceil = (\<lambda>x. of_int \<lceil>x\<rceil>),
      fl_to_int = (\<lambda>x. if - 2147483648 \<le> int_of_float x \<and> int_of_float x \<le> 2147483647
                        then int_of_float x else - 2147483648)\<rparr>"

subsection \<open>Controller: choosing the move after the search\<close>

datatype move = Vertex nat | PASS | RESIGN

datatype color = BLACK | WHITE

text \<open>\<open>passflag_t\<close> is a bit mask; \<open>passflag & UCTSearch::NOPASS\<close> is membership of the
  flag. \<open>UCTSearch::NORMAL\<close> is the empty mask.\<close>

datatype passflag_bit = NOPASS | NORESIGN

type_synonym passflag_t = "passflag_bit set"

definition NORMAL :: passflag_t where
  "NORMAL = {}"

text \<open>What the controller reads from \<open>m_rootstate\<close>.\<close>

record rootstate =
  boardsize :: nat
  movenum :: nat
  to_move :: color
  handicap :: int
  final_score :: real
  last_move :: move

text \<open>What the controller reads from a child of the root: its move, whether it has no
  visit yet (\<open>first_visit()\<close>), and \<open>get_raw_eval(color)\<close>.\<close>

record rootchild =
  get_move :: move
  first_visit :: bool
  get_raw_eval :: "color \<Rightarrow> real"

text \<open>The locals of \<open>UCTSearch::should_resign\<close>: \<open>resign_threshold\<close> is
  \<open>0.01f * (is_default_cfg_resign ? 10 : cfg_resignpct)\<close>, with the integer converted to
  \<open>float\<close>; \<open>handicap_resign_threshold\<close> divides it by \<open>1 + handicap\<close>; \<open>blend_ratio\<close> is
  \<open>std::min(1.0f, movenum / (0.6f * num_intersections))\<close>.\<close>

definition resign_threshold :: "float_arith \<Rightarrow> int \<Rightarrow> real" where
  "resign_threshold fl cfg_resignpct =
     fl_mul fl (fl_lit fl 0.01) (fl_of_int fl (if cfg_resignpct < 0 then 10 else cfg_resignpct))"

definition handicap_resign_threshold :: "float_arith \<Rightarrow> int \<Rightarrow> rootstate \<Rightarrow> real" where
  "handicap_resign_threshold fl cfg_resignpct rs =
     fl_div fl (resign_threshold fl cfg_resignpct) (fl_of_int fl (1 + handicap rs))"

definition blend_ratio :: "float_arith \<Rightarrow> rootstate \<Rightarrow> real" where
  "blend_ratio fl rs =
     min 1 (fl_div fl (fl_of_int fl (int (movenum rs)))
              (fl_mul fl (fl_lit fl 0.6) (fl_of_int fl (int (boardsize rs * boardsize rs)))))"

definition blended_resign_threshold :: "float_arith \<Rightarrow> int \<Rightarrow> rootstate \<Rightarrow> real" where
  "blended_resign_threshold fl cfg_resignpct rs =
     fl_add fl (fl_mul fl (blend_ratio fl rs) (resign_threshold fl cfg_resignpct))
       (fl_mul fl (fl_sub fl 1 (blend_ratio fl rs))
          (handicap_resign_threshold fl cfg_resignpct rs))"

text \<open>\<open>UCTSearch::should_resign\<close>; the second argument is \<open>cfg_resignpct\<close>.\<close>

definition should_resign :: "float_arith \<Rightarrow> int \<Rightarrow> rootstate \<Rightarrow> passflag_t \<Rightarrow> real \<Rightarrow> bool" where
  "should_resign fl cfg_resignpct rs passflag besteval =
     (if NORESIGN \<in> passflag then False
      else if cfg_resignpct = 0 then False
      else
        let num_intersections = boardsize rs * boardsize rs;
            move_threshold = num_intersections div 4
        in
        if movenum rs \<le> move_threshold then False
        else
          let is_default_cfg_resign = cfg_resignpct < 0 in
          if besteval > resign_threshold fl cfg_resignpct then False
          else if handicap rs > 0 \<and> to_move rs = WHITE \<and> is_default_cfg_resign then
            (if besteval > blended_resign_threshold fl cfg_resignpct rs then False else True)
          else True)"

text \<open>The local \<open>relative_score\<close> of \<open>get_best_move\<close>: the final score seen from the
  side to move.\<close>

definition relative_score :: "rootstate \<Rightarrow> real" where
  "relative_score rs = (if to_move rs = BLACK then 1 else - 1) * final_score rs"

text \<open>The first part of \<open>UCTSearch::get_best_move\<close>, up to the resignation test: the move
  and its evaluation after the pass heuristics. \<open>children\<close> are the root's children after
  \<open>sort_children\<close> (and \<open>randomize_first_proportionally\<close> when it applies), best first;
  \<open>nopass\<close> is what \<open>m_root->get_nopass_child(m_rootstate)\<close> returns. The function is
  called with a first child (\<open>assert(first_child != nullptr)\<close>).\<close>

definition get_best_move_pass ::
  "bool \<Rightarrow> rootstate \<Rightarrow> rootchild list \<Rightarrow> rootchild option \<Rightarrow> passflag_t \<Rightarrow>
   abort + (move \<times> real)" where
  "get_best_move_pass cfg_dumbpass rs children nopass passflag =
     (case children of
        [] \<Rightarrow> Inl AssertionFailed
      | first_child # _ \<Rightarrow>
          let color = to_move rs;
              bestmove = get_move first_child;
              besteval = (if first_visit first_child then 0.5
                          else get_raw_eval first_child color)
          in
          if NOPASS \<in> passflag then
            (if bestmove = PASS then
               (case nopass of
                  Some np \<Rightarrow>
                    Inr (get_move np,
                         if first_visit np then 1 else get_raw_eval np color)
                | None \<Rightarrow> Inr (bestmove, besteval))
             else Inr (bestmove, besteval))
          else if \<not> cfg_dumbpass then
            if bestmove = PASS then
              (if relative_score rs < 0 then
                 (case nopass of
                    Some np \<Rightarrow>
                      Inr (get_move np,
                           if first_visit np then 1 else get_raw_eval np color)
                  | None \<Rightarrow> Inr (bestmove, besteval))
               else if relative_score rs > 0 then Inr (bestmove, besteval)
               else
                 (case nopass of
                    Some np \<Rightarrow>
                      if \<not> first_visit np \<and> get_raw_eval np color > 0.5
                      then Inr (get_move np, get_raw_eval np color)
                      else Inr (bestmove, besteval)
                  | None \<Rightarrow> Inr (bestmove, besteval)))
            else if last_move rs = PASS then
              (if relative_score rs < 0 then Inr (bestmove, besteval)
               else if relative_score rs > 0 then Inr (PASS, besteval)
               else if besteval < 0.5 then Inr (PASS, besteval)
               else Inr (bestmove, besteval))
            else Inr (bestmove, besteval)
          else Inr (bestmove, besteval))"

text \<open>\<open>UCTSearch::get_best_move\<close>: the pass heuristics, then the resignation test.\<close>

definition get_best_move ::
  "float_arith \<Rightarrow> bool \<Rightarrow> int \<Rightarrow> rootstate \<Rightarrow> rootchild list \<Rightarrow> rootchild option \<Rightarrow>
   passflag_t \<Rightarrow> abort + move" where
  "get_best_move fl cfg_dumbpass cfg_resignpct rs children nopass passflag =
     (case get_best_move_pass cfg_dumbpass rs children nopass passflag of
        Inl a \<Rightarrow> Inl a
      | Inr (bestmove, besteval) \<Rightarrow>
          if bestmove \<noteq> PASS \<and> should_resign fl cfg_resignpct rs passflag besteval
          then Inr RESIGN
          else Inr bestmove)"

text \<open>The end of \<open>UCTSearch::think\<close>, after the search loop has stopped: a root without
  children passes; otherwise the result is that of \<open>get_best_move\<close>.\<close>

definition think_result ::
  "float_arith \<Rightarrow> bool \<Rightarrow> int \<Rightarrow> rootstate \<Rightarrow> rootchild list \<Rightarrow> rootchild option \<Rightarrow>
   passflag_t \<Rightarrow> abort + move" where
  "think_result fl cfg_dumbpass cfg_resignpct rs children nopass passflag =
     (if children = [] then Inr PASS
      else get_best_move fl cfg_dumbpass cfg_resignpct rs children nopass passflag)"

subsection \<open>Controller: time management\<close>

datatype TimeManagement = AUTO | OFF | ON | FAST | NO_PRUNING

text \<open>A child of the root as the pruning code sees it; \<open>get_visits\<close> is a
  floating-point count.\<close>

record prunechild =
  valid :: bool
  get_visits :: real
  active :: bool

text \<open>The part of the search object read and written by the time management:
  \<open>m_playouts\<close>, \<open>m_maxplayouts\<close>, \<open>m_maxvisits\<close>, and the visits and the children of
  \<open>m_root\<close>.\<close>

record search_limits =
  sl_playouts :: int
  sl_maxplayouts :: int
  sl_maxvisits :: int
  root_visits :: real
  root_children :: "prunechild list"

text \<open>\<open>UCTSearch::est_playouts_left\<close>. The playout rate \<open>1.0f * playouts / elapsed_centis\<close>
  and its product with the time left are computed in \<open>float\<close>, the integers converted.\<close>

definition est_playouts_left :: "float_arith \<Rightarrow> search_limits \<Rightarrow> int \<Rightarrow> int \<Rightarrow> int" where
  "est_playouts_left fl s elapsed_centis time_for_move =
     (let playouts = sl_playouts s;
          playouts_left =
            max 0 (min (sl_maxplayouts s - playouts)
                       (sl_maxvisits s - fl_to_int fl (root_visits s)))
      in
      if elapsed_centis < 100 \<or> playouts < 100 then playouts_left
      else
        let playout_rate =
              fl_div fl (fl_mul fl 1 (fl_of_int fl playouts)) (fl_of_int fl elapsed_centis);
            time_left = max 0 (time_for_move - elapsed_centis)
        in min playouts_left
             (fl_to_int fl (fl_ceil fl (fl_mul fl playout_rate (fl_of_int fl time_left)))))"

text \<open>The two loops of \<open>UCTSearch::prune_noncontenders\<close>. In the comparison
  \<open>node->get_visits() >= min_required_visits\<close> the integer is converted.\<close>

fun max_valid_visits :: "float_arith \<Rightarrow> int \<Rightarrow> prunechild list \<Rightarrow> int" where
  "max_valid_visits fl Nfirst [] = Nfirst"
| "max_valid_visits fl Nfirst (node # nodes) =
     max_valid_visits fl
       (if valid node then max Nfirst (fl_to_int fl (get_visits node)) else Nfirst) nodes"

fun mark_noncontenders ::
  "float_arith \<Rightarrow> bool \<Rightarrow> int \<Rightarrow> prunechild list \<Rightarrow> prunechild list \<times> nat" where
  "mark_noncontenders fl prune min_required_visits [] = ([], 0)"
| "mark_noncontenders fl prune min_required_visits (node # nodes) =
     (let (nodes', pruned_nodes) = mark_noncontenders fl prune min_required_visits nodes in
      if valid node then
        let has_enough_visits = (get_visits node \<ge> fl_of_int fl min_required_visits);
            node' = (if prune then node\<lparr>active := has_enough_visits\<rparr> else node)
        in (node' # nodes', if has_enough_visits then pruned_nodes else Suc pruned_nodes)
      else (node # nodes', pruned_nodes))"

text \<open>The local \<open>min_required_visits\<close> of \<open>prune_noncontenders\<close>, and the number of valid
  children whose visits are below it, which is what the function counts and returns.\<close>

definition min_required_visits :: "float_arith \<Rightarrow> search_limits \<Rightarrow> int \<Rightarrow> int \<Rightarrow> int" where
  "min_required_visits fl s elapsed_centis time_for_move =
     max_valid_visits fl 0 (root_children s)
     - est_playouts_left fl s elapsed_centis time_for_move"

definition pruned_count :: "float_arith \<Rightarrow> search_limits \<Rightarrow> int \<Rightarrow> int \<Rightarrow> nat" where
  "pruned_count fl s elapsed_centis time_for_move =
     length (filter (\<lambda>c. valid c \<and> get_visits c
                            < fl_of_int fl (min_required_visits fl s elapsed_centis time_for_move))
               (root_children s))"

text \<open>\<open>UCTSearch::prune_noncontenders\<close>, with its closing assertion; \<open>ndebug\<close> tells
  whether \<open>assert\<close> is compiled out.\<close>

definition prune_noncontenders ::
  "float_arith \<Rightarrow> bool \<Rightarrow> search_limits \<Rightarrow> int \<Rightarrow> int \<Rightarrow> bool \<Rightarrow>
   abort + (search_limits \<times> nat)" where
  "prune_noncontenders fl ndebug s elapsed_centis time_for_move prune =
     (let Nfirst = max_valid_visits fl 0 (root_children s);
          min_required_visits = Nfirst - est_playouts_left fl s elapsed_centis time_for_move;
          (children', pruned_nodes) =
            mark_noncontenders fl prune min_required_visits (root_children s)
      in
      if \<not> ndebug \<and> \<not> pruned_nodes < length (root_children s)
      then Inl AssertionFailed
      else Inr (s\<lparr>root_children := children'\<rparr>, pruned_nodes))"

text \<open>\<open>UCTSearch::have_alternate_moves\<close>. \<open>can_accumulate_time\<close> is the answer of the time
  control for the side to move.\<close>

definition have_alternate_moves ::
  "float_arith \<Rightarrow> bool \<Rightarrow> TimeManagement \<Rightarrow> int \<Rightarrow> bool \<Rightarrow> search_limits \<Rightarrow> int \<Rightarrow> int \<Rightarrow>
   abort + (search_limits \<times> bool)" where
  "have_alternate_moves fl ndebug cfg_timemanage UNLIMITED_PLAYOUTS can_accumulate_time s
     elapsed_centis time_for_move =
     (if cfg_timemanage = OFF then Inr (s, True)
      else
        let prune = (cfg_timemanage \<noteq> NO_PRUNING) in
        if length (root_children s) = 0 then Inr (s, True)
        else
          case prune_noncontenders fl ndebug s elapsed_centis time_for_move prune of
            Inl a \<Rightarrow> Inl a
          | Inr (s', pruned) \<Rightarrow>
              let size = length (root_children s') in
              if pruned < size - 1 then Inr (s', True)
              else if (\<not> can_accumulate_time \<or> sl_maxplayouts s' < UNLIMITED_PLAYOUTS)
                      \<and> cfg_timemanage \<noteq> FAST
              then Inr (s', True)
              else Inr (s', False))"



subsection \<open>The root lock\<close>

text \<open>
  \<open>m_root_lock\<close> is one atomic counter. Each thread is modelled by its position in
  \<open>acquire_reader\<close>/\<open>release_reader\<close> (search threads) or
  \<open>acquire_writer\<close>/\<open>release_writer\<close> (the main thread, the only one that may write); a
  step is one atomic access of the counter by one thread, and a schedule is the list of
  the threads that step. The counter is an \<open>int\<close> here: it never leaves the range from 0
  to 128 plus the number of readers, as shown below.
\<close>

datatype reader_pc =
    R_idle      \<comment> \<open>at the head of the loop of \<open>acquire_reader\<close>\<close>
  | R_checked   \<comment> \<open>saw a value below 128, about to \<open>fetch_add(1)\<close>\<close>
  | R_undo      \<comment> \<open>\<open>fetch_add\<close> returned 128 or more, about to decrement\<close>
  | R_holding   \<comment> \<open>returned from \<open>acquire_reader\<close>, not yet in \<open>release_reader\<close>\<close>

datatype writer_pc =
    W_idle      \<comment> \<open>before \<open>acquire_writer\<close>\<close>
  | W_spinning  \<comment> \<open>added 128, in the loop \<open>while (m_root_lock != 128)\<close>\<close>
  | W_holding   \<comment> \<open>returned from \<open>acquire_writer\<close>, not yet in \<open>release_writer\<close>\<close>

record lock_state =
  m_root_lock :: int
  readers :: "reader_pc list"
  writer :: writer_pc

text \<open>One step of a search thread: \<open>UCTSearch::acquire_reader\<close>, then
  \<open>UCTSearch::release_reader\<close>. \<open>fetch_add\<close> returns the value before the addition.\<close>

fun reader_step :: "int \<Rightarrow> reader_pc \<Rightarrow> int \<times> reader_pc" where
  "reader_step lock R_idle = (if lock \<ge> 128 then (lock, R_idle) else (lock, R_checked))"
| "reader_step lock R_checked = (lock + 1, if lock \<ge> 128 then R_undo else R_holding)"
| "reader_step lock R_undo = (lock - 1, R_idle)"
| "reader_step lock R_holding = (lock - 1, R_idle)"

text \<open>One step of the main thread: \<open>UCTSearch::acquire_writer\<close>, then
  \<open>UCTSearch::release_writer\<close>.\<close>

fun writer_step :: "int \<Rightarrow> writer_pc \<Rightarrow> int \<times> writer_pc" where
  "writer_step lock W_idle = (lock + 128, W_spinning)"
| "writer_step lock W_spinning = (lock, if lock \<noteq> 128 then W_spinning else W_holding)"
| "writer_step lock W_holding = (lock - 128, W_idle)"

datatype lock_event = Reader nat | Writer

fun lock_step :: "lock_state \<Rightarrow> lock_event \<Rightarrow> lock_state" where
  "lock_step s (Reader i) =
     (if i < length (readers s) then
        (case reader_step (m_root_lock s) (readers s ! i) of
           (lock', pc') \<Rightarrow> s\<lparr>m_root_lock := lock', readers := (readers s)[i := pc']\<rparr>)
      else s)"
| "lock_step s Writer =
     (case writer_step (m_root_lock s) (writer s) of
        (lock', pc') \<Rightarrow> s\<lparr>m_root_lock := lock', writer := pc'\<rparr>)"

definition lock_init :: "nat \<Rightarrow> lock_state" where
  "lock_init n = \<lparr>m_root_lock = 0, readers = replicate n R_idle, writer = W_idle\<rparr>"

definition lock_run :: "nat \<Rightarrow> lock_event list \<Rightarrow> lock_state" where
  "lock_run n schedule = foldl lock_step (lock_init n) schedule"

text \<open>The number of readers that have added 1 to the counter and not yet taken it back.\<close>

definition counted_readers :: "reader_pc list \<Rightarrow> int" where
  "counted_readers rs = sum_list (map (\<lambda>pc. if pc = R_undo \<or> pc = R_holding then 1 else 0) rs)"

definition lock_invariant :: "lock_state \<Rightarrow> bool" where
  "lock_invariant s =
     (m_root_lock s = (if writer s = W_idle then 0 else 128) + counted_readers (readers s)
      \<and> (writer s = W_holding \<longrightarrow> R_holding \<notin> set (readers s)))"

subsection \<open>The search tree and the advance of its root\<close>

text \<open>A node owns its children (\<open>std::unique_ptr\<close>), so the tree that the controller
  holds under the writer lock is a value. The fields kept are the move, the policy prior,
  the visits and the virtual loss.\<close>

datatype uctnode =
  UCTNode (u_move: move) (u_policy: real) (u_visits: real) (u_virtual_loss: int)
          (u_children: "uctnode list")

text \<open>\<open>std::make_unique<UCTNode>(FastBoard::PASS, 0.0f)\<close>.\<close>

definition fresh_root :: uctnode where
  "fresh_root = UCTNode PASS 0 0 0 []"

text \<open>All nodes of a subtree, as (move, prior, visits, virtual loss) entries.\<close>

fun nodes_of :: "uctnode \<Rightarrow> (move \<times> real \<times> real \<times> int) multiset" where
  "nodes_of (UCTNode m p v l cs) = {#(m, p, v, l)#} + (\<Sum>c\<in>#mset cs. nodes_of c)"

definition nodes_of_list :: "uctnode list \<Rightarrow> (move \<times> real \<times> real \<times> int) multiset" where
  "nodes_of_list ts = (\<Sum>t\<in>#mset ts. nodes_of t)"

text \<open>Modelled from the spec: \<open>UCTNode::find_child\<close> is defined with the node class.
  The spec says that each step of the walk ``detaches the previous root into a to_delete
  list and promotes the matched child'': the first child with the move is taken out of
  the node and returned, and a null pointer is returned when there is none. The result
  is the child, if any, and the node without it.\<close>

fun take_child :: "uctnode list \<Rightarrow> move \<Rightarrow> uctnode option \<times> uctnode list" where
  "take_child [] m = (None, [])"
| "take_child (c # cs) m =
     (if u_move c = m then (Some c, cs)
      else case take_child cs m of (r, cs') \<Rightarrow> (r, c # cs'))"

fun find_child :: "uctnode \<Rightarrow> move \<Rightarrow> uctnode option \<times> uctnode" where
  "find_child (UCTNode m p v l cs) mv =
     (case take_child cs mv of (r, cs') \<Rightarrow> (r, UCTNode m p v l cs'))"

text \<open>The game state is an object of its own; the functions of it that the root
  advance calls are parameters.\<close>

record 'g game_ops =
  gs_komi :: "'g \<Rightarrow> real"
  gs_movenum :: "'g \<Rightarrow> nat"
  gs_hash :: "'g \<Rightarrow> nat"
  gs_undo_move :: "'g \<Rightarrow> 'g"
  gs_forward_move :: "'g \<Rightarrow> 'g"
  gs_last_move :: "'g \<Rightarrow> move"
  gs_play_move :: "'g \<Rightarrow> move \<Rightarrow> 'g"

text \<open>A background deletion task as it is handed to \<open>m_delete_futures\<close>: the nodes to
  delete and the pending counter (its address) that the task waits for.\<close>

type_synonym delete_task = "uctnode list \<times> nat"

text \<open>The search object. Pending counters are allocated with \<open>new\<close>; \<open>counter_heap\<close>
  holds their values, and a counter's address is its index.\<close>

record 'g uctsearch =
  m_gtpstate :: 'g
  m_rootstate :: 'g
  m_last_rootstate :: "'g option"
  m_root :: "uctnode option"
  m_pending_counter :: "nat option"
  counter_heap :: "int list"
  m_delete_futures :: "delete_task list"
  m_playouts :: int
  m_positions :: int
  m_root_prepared :: bool
  m_run :: bool

text \<open>The second loop of \<open>UCTSearch::advance_to_new_rootstate\<close>, which replays \<open>depth\<close>
  moves. The result is the state \<open>test\<close>, the new \<open>m_root\<close> (none when a move has no
  child), \<open>m_last_rootstate\<close> and \<open>to_delete\<close>.\<close>

fun replay_moves ::
  "'g game_ops \<Rightarrow> nat \<Rightarrow> 'g \<Rightarrow> uctnode \<Rightarrow> 'g \<Rightarrow> uctnode list \<Rightarrow>
   'g \<times> uctnode option \<times> 'g \<times> uctnode list" where
  "replay_moves ops 0 test node lastst to_delete = (test, Some node, lastst, to_delete)"
| "replay_moves ops (Suc n) test node lastst to_delete =
     (let test' = gs_forward_move ops test;
          move = gs_last_move ops test'
      in case find_child node move of
           (None, oldroot) \<Rightarrow> (test', None, lastst, to_delete @ [oldroot])
         | (Some child, oldroot) \<Rightarrow>
             replay_moves ops n test' child (gs_play_move ops lastst move)
               (to_delete @ [oldroot]))"

text \<open>The number of moves between the last root state and the current one, where the
  current one is not behind.\<close>

definition replay_depth :: "'g game_ops \<Rightarrow> 'g \<Rightarrow> 'g \<Rightarrow> nat" where
  "replay_depth ops rootstate lastst =
     nat (int (gs_movenum ops rootstate) - int (gs_movenum ops lastst))"

text \<open>\<open>UCTSearch::advance_to_new_rootstate\<close>. The difference of the move numbers is
  computed on \<open>size_t\<close> and cast to \<open>int\<close>; for move numbers below \<open>2^31\<close> that is the
  integer difference \<open>depth\<close>. Where \<open>depth\<close> is not negative the two loops run
  \<open>replay_depth\<close> rounds (\<open>n\<close>). \<open>ndebug\<close> tells whether \<open>assert\<close> is compiled out.\<close>

definition advance_to_new_rootstate ::
  "'g game_ops \<Rightarrow> bool \<Rightarrow> 'g uctsearch \<Rightarrow> uctnode list \<Rightarrow>
   abort + (bool \<times> 'g uctsearch \<times> uctnode list)" where
  "advance_to_new_rootstate ops ndebug s to_delete =
     (case (m_root s, m_last_rootstate s) of
        (None, _) \<Rightarrow> Inr (False, s, to_delete)
      | (Some node, None) \<Rightarrow> Inr (False, s, to_delete)
      | (Some node, Some lastst) \<Rightarrow>
          if gs_komi ops (m_rootstate s) \<noteq> gs_komi ops lastst then Inr (False, s, to_delete)
          else
            let depth = int (gs_movenum ops (m_rootstate s)) - int (gs_movenum ops lastst) in
            if depth < 0 then Inr (False, s, to_delete)
            else
              let n = replay_depth ops (m_rootstate s) lastst;
                  test = (gs_undo_move ops ^^ n) (m_rootstate s)
              in
              if gs_hash ops lastst \<noteq> gs_hash ops test then Inr (False, s, to_delete)
              else
                case replay_moves ops n test node lastst to_delete of
                  (test', root', lastst', to_delete') \<Rightarrow>
                    let s' = s\<lparr>m_root := root', m_last_rootstate := Some lastst'\<rparr> in
                    if root' = None then Inr (False, s', to_delete')
                    else if \<not> ndebug
                            \<and> gs_movenum ops (m_rootstate s) \<noteq> gs_movenum ops lastst'
                    then Inl AssertionFailed
                    else if gs_hash ops lastst' \<noteq> gs_hash ops test'
                    then Inr (False, s', to_delete')
                    else Inr (True, s', to_delete'))"

text \<open>\<open>UCTSearch::update_root\<close> from \<open>acquire_writer()\<close> to \<open>m_run = true\<close>, that is
  without the two waits (for the lock, and for the workers to prepare the root).\<close>

definition update_root :: "'g game_ops \<Rightarrow> bool \<Rightarrow> 'g uctsearch \<Rightarrow> abort + 'g uctsearch" where
  "update_root ops ndebug s0 =
     (let s = s0\<lparr>m_rootstate := m_gtpstate s0\<rparr> in
      case advance_to_new_rootstate ops ndebug s [] of
        Inl a \<Rightarrow> Inl a
      | Inr (advanced, s1, to_delete1) \<Rightarrow>
          let (root2, to_delete) =
                (if \<not> advanced \<or> m_root s1 = None then
                   (Some fresh_root,
                    case m_root s1 of Some r \<Rightarrow> to_delete1 @ [r] | None \<Rightarrow> to_delete1)
                 else (m_root s1, to_delete1));
              futures =
                (case m_pending_counter s1 of
                   Some pending_counter \<Rightarrow>
                     if to_delete \<noteq> []
                     then m_delete_futures s1 @ [(to_delete, pending_counter)]
                     else m_delete_futures s1
                 | None \<Rightarrow> m_delete_futures s1)
          in Inr (s1\<lparr>m_root := root2,
                      m_delete_futures := futures,
                      m_last_rootstate := None,
                      m_playouts := 0,
                      m_positions := 0,
                      m_pending_counter := Some (length (counter_heap s1)),
                      counter_heap := counter_heap s1 @ [0],
                      m_root_prepared := False,
                      m_run := True\<rparr>))"

text \<open>A small game state for examples: the komi, the moves played (latest first) and the
  moves taken back. Its hash is the list of the moves played, coded as a number.\<close>

type_synonym simple_game = "real \<times> move list \<times> move list"

fun move_code :: "move \<Rightarrow> nat" where
  "move_code (Vertex v) = v + 2"
| "move_code PASS = 0"
| "move_code RESIGN = 1"

fun moves_code :: "move list \<Rightarrow> nat" where
  "moves_code [] = 0"
| "moves_code (m # ms) = 1 + move_code m + 1000 * moves_code ms"

definition simple_game_ops :: "simple_game game_ops" where
  "simple_game_ops =
     \<lparr>gs_komi = (\<lambda>(k, played, undone). k),
      gs_movenum = (\<lambda>(k, played, undone). length played),
      gs_hash = (\<lambda>(k, played, undone). moves_code played),
      gs_undo_move = (\<lambda>(k, played, undone).
         case played of [] \<Rightarrow> (k, played, undone) | m # ms \<Rightarrow> (k, ms, m # undone)),
      gs_forward_move = (\<lambda>(k, played, undone).
         case undone of [] \<Rightarrow> (k, played, undone) | m # ms \<Rightarrow> (k, m # played, ms)),
      gs_last_move = (\<lambda>(k, played, undone). case played of [] \<Rightarrow> PASS | m # ms \<Rightarrow> m),
      gs_play_move = (\<lambda>(k, played, undone) m. (k, m # played, []))\<rparr>"

text \<open>An example search object: the last root state is the empty board, the root has
  100 visits and one child, for the move at vertex 5, with 60 visits; \<open>game\<close> is the
  current state of the game.\<close>

definition example_search :: "simple_game \<Rightarrow> simple_game uctsearch" where
  "example_search game =
     \<lparr>m_gtpstate = game,
      m_rootstate = (7.5, [], []),
      m_last_rootstate = Some (7.5, [], []),
      m_root = Some (UCTNode PASS 0 100 0 [UCTNode (Vertex 5) 0.5 60 0 []]),
      m_pending_counter = Some 0,
      counter_heap = [0],
      m_delete_futures = [],
      m_playouts = 100,
      m_positions = 100,
      m_root_prepared = True,
      m_run = False\<rparr>"

subsection \<open>The background deletion task\<close>





subsection \<open>Simulations: descent, expansion and backup\<close>

text \<open>
  A simulation holds raw pointers to the nodes of its path while other threads change
  them, so here the nodes live in a store, a list indexed by the pointer. All accesses of
  a node's counters are atomic read-modify-write operations, and the functions below are
  the sequence of accesses made by one call.
\<close>

type_synonym node_ptr = nat

text \<open>The expansion states named by the spec.\<close>

datatype expand_state = IDLE | WRITING | READY | INVALID

text \<open>The fields of \<open>UCTNode\<close> that a simulation touches. \<open>m_virtual_loss\<close> and
  \<open>m_accumulated_vl\<close> are accessed directly by \<open>UCTSearch\<close>; the other fields are behind
  the methods of the node. The virtual loss is an \<open>int\<close> here, so that a removal without a
  matching addition shows as a negative value.\<close>

record node =
  m_move :: move
  m_visits :: real
  value_sum :: real
  net_eval :: real
  m_virtual_loss :: int
  m_accumulated_vl :: nat
  node_state :: expand_state
  m_children :: "node_ptr list"

text \<open>The search object as a simulation sees it: the nodes, the pending counter that
  \<open>bd.pending_counter\<close> points to, \<open>m_root_prepared\<close> and \<open>m_playouts\<close>.\<close>

record simstate =
  nodes :: "node list"
  pending_counter :: int
  root_prepared :: bool
  playouts :: int

definition map_node :: "node_ptr \<Rightarrow> (node \<Rightarrow> node) \<Rightarrow> simstate \<Rightarrow> simstate" where
  "map_node p f s = s\<lparr>nodes := (nodes s)[p := f (nodes s ! p)]\<rparr>"

text \<open>Modelled from the spec: \<open>UCTNode::virtual_loss\<close>, \<open>UCTNode::virtual_loss_undo\<close> and
  \<open>UCTNode::update\<close> are defined with the node class. By the spec's backup rule a
  backup at a node adds the evaluation times the accumulated factor to \<open>value_sum\<close>, the
  accumulated factor to \<open>visits\<close>, and subtracts the given units from \<open>virtual_loss\<close>; the
  accumulated factor is the product of the factors from the node down to the leaf, which
  is the last argument of the call.\<close>

definition virtual_loss :: "node_ptr \<Rightarrow> nat \<Rightarrow> simstate \<Rightarrow> simstate" where
  "virtual_loss p vl = map_node p (\<lambda>n. n\<lparr>m_virtual_loss := m_virtual_loss n + int vl\<rparr>)"

definition virtual_loss_undo :: "node_ptr \<Rightarrow> nat \<Rightarrow> simstate \<Rightarrow> simstate" where
  "virtual_loss_undo p vl = map_node p (\<lambda>n. n\<lparr>m_virtual_loss := m_virtual_loss n - int vl\<rparr>)"

definition update :: "node_ptr \<Rightarrow> real \<Rightarrow> nat \<Rightarrow> real \<Rightarrow> real \<Rightarrow> simstate \<Rightarrow> simstate" where
  "update p eval vl factor sel_factor =
     map_node p (\<lambda>n. n\<lparr>m_visits := m_visits n + sel_factor,
                        value_sum := value_sum n + eval * sel_factor,
                        m_virtual_loss := m_virtual_loss n - int vl\<rparr>)"

text \<open>Modelled from the spec: \<open>UCTNode::create_children\<close>, \<open>prepare_root_node\<close> and the
  node's \<open>release_writer\<close> are defined with the node class. Expansion creates one
  node per surviving legal move, storing its prior (here: its move), and the node is
  \<open>READY\<close> once the writer is released. The legal moves that survive the filter are
  given. Preparing the root orders its children and leaves the fields modelled here as
  they are.\<close>

definition new_node :: "move \<Rightarrow> node" where
  "new_node mv = \<lparr>m_move = mv, m_visits = 0, value_sum = 0, net_eval = 0, m_virtual_loss = 0,
                  m_accumulated_vl = 0, node_state = IDLE, m_children = []\<rparr>"

definition create_children :: "node_ptr \<Rightarrow> move list \<Rightarrow> simstate \<Rightarrow> simstate" where
  "create_children p legal s =
     (let first = length (nodes s);
          s1 = s\<lparr>nodes := nodes s @ map new_node legal\<rparr>
      in map_node p (\<lambda>n. n\<lparr>m_children := [first ..< first + length legal]\<rparr>) s1)"

definition prepare_root_node :: "node_ptr \<Rightarrow> simstate \<Rightarrow> simstate" where
  "prepare_root_node p s = s"

definition release_writer :: "node_ptr \<Rightarrow> simstate \<Rightarrow> simstate" where
  "release_writer p = map_node p (\<lambda>n. n\<lparr>node_state := READY\<rparr>)"

text \<open>\<open>BackupData\<close>: the recorded path of (node, factor) pairs, the evaluation, and the
  game state moved into it for the network (its side to move is what the backup reads).\<close>

record backupdata =
  path :: "(node_ptr \<times> real) list"
  eval :: real
  state_to_move :: color

text \<open>The network result as the backup uses it: the winrate and the legal moves that
  \<open>create_children\<close> keeps.\<close>

record netresult =
  winrate :: real
  legal_moves :: "move list"

text \<open>The loop of \<open>UCTSearch::backup(BackupData&, uint16_t)\<close> over the reversed path
  without its first element, and the function. An empty path does not occur: a
  simulation records its first node before anything else.\<close>

fun backup_loop :: "real \<Rightarrow> nat \<Rightarrow> real \<Rightarrow> (node_ptr \<times> real) list \<Rightarrow> simstate \<Rightarrow> simstate" where
  "backup_loop e vl factor [] s = s"
| "backup_loop e vl factor ((p, f) # nfs) s =
     (let sel_factor = factor * f in
      backup_loop e vl sel_factor nfs (update p e vl factor sel_factor s))"

definition backup_vl :: "backupdata \<Rightarrow> nat \<Rightarrow> simstate \<Rightarrow> simstate" where
  "backup_vl bd vl s =
     (case rev (path bd) of
        [] \<Rightarrow> s
      | (leaf, factor) # nfs \<Rightarrow>
          (let s1 = backup_loop (eval bd) vl factor nfs s
           in s1\<lparr>pending_counter := pending_counter s1 - 1\<rparr>))"

text \<open>\<open>UCTSearch::failed_simulation\<close>; \<open>incr\<close> is false where the call leaves it out.\<close>

fun failed_loop :: "bool \<Rightarrow> nat \<Rightarrow> (node_ptr \<times> real) list \<Rightarrow> simstate \<Rightarrow> simstate" where
  "failed_loop incr vl [] s = s"
| "failed_loop incr vl ((p, f) # nfs) s =
     failed_loop incr vl nfs (if incr then virtual_loss p vl s else virtual_loss_undo p vl s)"

definition failed_simulation :: "backupdata \<Rightarrow> nat \<Rightarrow> bool \<Rightarrow> simstate \<Rightarrow> simstate" where
  "failed_simulation bd vl incr s =
     (let s1 = failed_loop incr vl (rev (path bd)) s
      in s1\<lparr>pending_counter := pending_counter s1 - 1\<rparr>)"

text \<open>\<open>UCTSearch::backup(BackupData&, Netresult_ptr)\<close>, the callback that runs when the
  network result of an expansion arrives. The minimal prior ratio only selects which
  legal moves become children.\<close>

definition backup_netresult :: "netresult \<Rightarrow> backupdata \<Rightarrow> simstate \<Rightarrow> simstate \<times> backupdata" where
  "backup_netresult nr bd s =
     (case rev (path bd) of
        [] \<Rightarrow> (s, bd)
      | (node, node_factor) # _ \<Rightarrow>
          let is_root = (length (path bd) = 1);
              first_visit = (m_visits (nodes s ! node) = 0);
              s1 = create_children node (legal_moves nr) s;
              vl = m_accumulated_vl (nodes s1 ! node);
              s2 = map_node node (\<lambda>n. n\<lparr>m_accumulated_vl := 0\<rparr>) s1;
              bd1 = (if first_visit
                     then bd\<lparr>eval := (if state_to_move bd = BLACK then winrate nr
                                        else 1 - winrate nr)\<rparr>
                     else bd);
              s3 = (if first_visit then update node (eval bd1) vl 1 node_factor s2 else s2);
              s4 = (if is_root \<and> \<not> root_prepared s3
                    then (prepare_root_node node s3)\<lparr>root_prepared := True\<rparr>
                    else s3);
              s5 = release_writer node s4;
              s6 = (if first_visit then backup_vl bd1 vl s5
                    else failed_simulation bd1 vl False s5)
          in (s6\<lparr>playouts := playouts s6 + 1\<rparr>, bd1))"

text \<open>\<open>eval_from_score\<close>.\<close>

definition eval_from_score :: "real \<Rightarrow> real" where
  "eval_from_score board_score =
     (if board_score > 0 then 1 else if board_score < 0 then 0 else 0.5)"

text \<open>Modelled from the spec: \<open>UCTNode::get_action\<close>, \<open>uct_select_child\<close>,
  \<open>release_reader\<close>, \<open>invalidate\<close> and \<open>get_net_eval\<close> are defined with the node
  class. By the spec's table of the node lock protocol an invalid node answers \<open>BACKUP\<close>,
  an expanded node \<open>READ\<close>, a node that nobody is expanding \<open>WRITE\<close> (the caller becomes
  the writer), and a node that is being expanded \<open>FAIL\<close>, upon which 1 is added to
  \<open>accumulated_vl\<close>. Selection picks a child by the PUCT rule, which is a parameter here
  (\<open>pick\<close>), increments the chosen child's virtual loss by 1 and returns it with its
  factor; no child is returned when all are invalid. The reader count of the node lock is
  not modelled, so \<open>release_reader\<close> changes nothing.\<close>

datatype action = WRITE | FAIL | READ | BACKUP

definition get_action :: "node_ptr \<Rightarrow> bool \<Rightarrow> simstate \<Rightarrow> simstate \<times> action" where
  "get_action p unprepared_root s =
     (case node_state (nodes s ! p) of
        INVALID \<Rightarrow> (s, BACKUP)
      | READY \<Rightarrow> (s, READ)
      | IDLE \<Rightarrow> (map_node p (\<lambda>n. n\<lparr>node_state := WRITING\<rparr>) s, WRITE)
      | WRITING \<Rightarrow>
          (map_node p (\<lambda>n. n\<lparr>m_accumulated_vl := m_accumulated_vl n + 1\<rparr>) s, FAIL))"

type_synonym chooser = "simstate \<Rightarrow> node_ptr \<Rightarrow> color \<Rightarrow> bool \<Rightarrow> (node_ptr \<times> real) option"

definition uct_select_child ::
  "chooser \<Rightarrow> node_ptr \<Rightarrow> color \<Rightarrow> bool \<Rightarrow> simstate \<Rightarrow> simstate \<times> (node_ptr \<times> real) option" where
  "uct_select_child pick p color is_root s =
     (case pick s p color is_root of
        None \<Rightarrow> (s, None)
      | Some (child, factor) \<Rightarrow> (virtual_loss child 1 s, Some (child, factor)))"

definition release_reader :: "node_ptr \<Rightarrow> simstate \<Rightarrow> simstate" where
  "release_reader p s = s"

definition invalidate :: "node_ptr \<Rightarrow> simstate \<Rightarrow> simstate" where
  "invalidate p = map_node p (\<lambda>n. n\<lparr>node_state := INVALID\<rparr>)"

definition get_net_eval :: "node_ptr \<Rightarrow> color \<Rightarrow> simstate \<Rightarrow> real" where
  "get_net_eval p color s =
     (if color = BLACK then net_eval (nodes s ! p) else 1 - net_eval (nodes s ! p))"

text \<open>The functions of the game state that a simulation calls.\<close>

record 'g sim_ops =
  sg_passes :: "'g \<Rightarrow> nat"
  sg_final_score :: "'g \<Rightarrow> real"
  sg_to_move :: "'g \<Rightarrow> color"
  sg_play_move :: "'g \<Rightarrow> move \<Rightarrow> 'g"
  sg_superko :: "'g \<Rightarrow> bool"

text \<open>How a call of \<open>play_simulation\<close> ends: with the expansion request handed to the
  network (\<open>m_network.get_output0\<close>, which later calls the backup above with the data
  recorded), or finished.\<close>

datatype 'g sim_result = Submitted backupdata 'g | Finished

text \<open>The case \<open>UCTNode::BACKUP\<close> of the switch in \<open>play_simulation\<close>, which the case
  \<open>READ\<close> falls through to when no child is selected.\<close>

definition backup_case :: "backupdata \<Rightarrow> node_ptr \<Rightarrow> real \<Rightarrow> simstate \<Rightarrow> simstate" where
  "backup_case bd node factor s =
     (let e = get_net_eval node BLACK s
      in backup_vl (bd\<lparr>eval := e\<rparr>) 1 (update node e 1 1 factor s))"

text \<open>\<open>UCTSearch::play_simulation\<close>. The loop descends one node per round; the first
  argument bounds the number of rounds, and the result is \<open>None\<close> when the bound is
  reached.\<close>

fun play_simulation ::
  "'g sim_ops \<Rightarrow> chooser \<Rightarrow> nat \<Rightarrow> 'g \<Rightarrow> node_ptr \<Rightarrow> real \<Rightarrow> bool \<Rightarrow> backupdata \<Rightarrow> simstate
   \<Rightarrow> (simstate \<times> 'g sim_result) option" where
  "play_simulation ops pick 0 currstate node factor is_root bd0 s = None"
| "play_simulation ops pick (Suc rounds) currstate node factor is_root bd0 s =
     (let bd = bd0\<lparr>path := path bd0 @ [(node, factor)]\<rparr> in
      if sg_passes ops currstate \<ge> 2 then
        (let e = eval_from_score (sg_final_score ops currstate)
         in Some (backup_vl (bd\<lparr>eval := e\<rparr>) 1 (update node e 1 1 factor s), Finished))
      else
        case get_action node (is_root \<and> \<not> root_prepared s) s of
          (s1, WRITE) \<Rightarrow>
            Some (s1, Submitted (bd\<lparr>state_to_move := sg_to_move ops currstate\<rparr>) currstate)
        | (s1, FAIL) \<Rightarrow> Some (s1\<lparr>pending_counter := pending_counter s1 - 1\<rparr>, Finished)
        | (s1, READ) \<Rightarrow>
            (case uct_select_child pick node (sg_to_move ops currstate) is_root s1 of
               (s2, Some (child, child_factor)) \<Rightarrow>
                 (let s3 = release_reader node s2;
                      move = m_move (nodes s3 ! child);
                      currstate' = sg_play_move ops currstate move
                  in if move \<noteq> PASS \<and> sg_superko ops currstate'
                     then Some (failed_simulation bd 1 False (invalidate child s3), Finished)
                     else play_simulation ops pick rounds currstate' child child_factor
                            False bd s3)
             | (s2, None) \<Rightarrow>
                 Some (backup_case bd node factor (release_reader node s2), Finished))
        | (s1, BACKUP) \<Rightarrow> Some (backup_case bd node factor s1, Finished))"

text \<open>Everything in a node but its three statistics (visits, value sum and virtual
  loss): the move, the cached network evaluation, the accumulated count, the expansion
  state and the children.\<close>

definition node_marks :: "node \<Rightarrow> move \<times> real \<times> nat \<times> expand_state \<times> node_ptr list" where
  "node_marks n = (m_move n, net_eval n, m_accumulated_vl n, node_state n, m_children n)"

text \<open>A small game state for examples of simulations: the number of passes at the end
  of the game record and the final score. Black is to move and no move repeats a
  position.\<close>

definition simple_sim_ops :: "(nat \<times> real) sim_ops" where
  "simple_sim_ops =
     \<lparr>sg_passes = fst,
      sg_final_score = snd,
      sg_to_move = (\<lambda>g. BLACK),
      sg_play_move = (\<lambda>g m. if m = PASS then (fst g + 1, snd g) else (0, snd g)),
      sg_superko = (\<lambda>g. False)\<rparr>"

text \<open>An example store of two nodes: the root at 0, expanded, with the one child at 1,
  which nobody has visited or expanded. \<open>units\<close> is the virtual loss on both nodes and
  \<open>accumulated\<close> the accumulated count of the child, which is in the given state.\<close>

definition example_nodes :: "int \<Rightarrow> nat \<Rightarrow> expand_state \<Rightarrow> simstate" where
  "example_nodes units accumulated child_state =
     \<lparr>nodes =
        [\<lparr>m_move = PASS, m_visits = 10, value_sum = 5, net_eval = 0.5,
          m_virtual_loss = units, m_accumulated_vl = 0, node_state = READY,
          m_children = [1]\<rparr>,
         \<lparr>m_move = Vertex 4, m_visits = 0, value_sum = 0, net_eval = 0,
          m_virtual_loss = units, m_accumulated_vl = accumulated, node_state = child_state,
          m_children = []\<rparr>],
      pending_counter = 3,
      root_prepared = True,
      playouts = 10\<rparr>"

section \<open>Properties\<close>

subsection \<open>Evaluating single precision\<close>

lemma quantum_up_numeral:
  "quantum_up (numeral k) q x =
     (if \<bar>x\<bar> < 16777216 * q then q else quantum_up (pred_numeral k) (2 * q) x)"
  by (simp add: numeral_eq_Suc)

lemma quantum_down_numeral:
  "quantum_down (numeral k) q x =
     (if 8388608 * q \<le> \<bar>x\<bar> then q else quantum_down (pred_numeral k) (q / 2) x)"
  by (simp add: numeral_eq_Suc)

lemmas ieee_single_simps =
  ieee_single_def binary32_def quantum_def round_even_def quantum_up_numeral
  quantum_down_numeral int_of_float_def Let_def

text \<open>The floats nearest to 0.01, 0.6, 0.07 and 0.1, and the operations on the numbers
  of the examples below. The largest playout limit is not a float.\<close>

lemma binary32_examples:
  "binary32 (1 / 100) = 5368709 / 536870912"
  "binary32 (6 / 10) = 5033165 / 8388608"
  "binary32 (7 / 100) = 9395241 / 134217728"
  "binary32 (1 / 10) = 13421773 / 134217728"
  by (simp_all add: ieee_single_simps)

lemma ieee_single_examples:
  "fl_of_int ieee_single 200 = 200"
  "fl_of_int ieee_single 5 = 5"
  "fl_of_int ieee_single 95 = 95"
  "fl_of_int ieee_single 1073741823 = 1073741824"
  "fl_mul ieee_single 1 200 = 200"
  "fl_div ieee_single 200 200 = 1"
  "fl_mul ieee_single 1 5 = 5"
  "fl_ceil ieee_single 5 = 5"
  "fl_to_int ieee_single 5 = 5"
  "fl_to_int ieee_single 0 = 0"
  "fl_to_int ieee_single 100 = 100"
  "fl_to_int ieee_single 101 = 101"
  by (simp_all add: ieee_single_simps)

subsection \<open>Option \<open>playouts\<close>\<close>

text \<open>
  C10 (as amended). Handling \<open>lz-setoption name playouts value N\<close> with pondering
  disabled and \<open>N\<close> nonzero stores \<open>N\<close> in \<open>cfg_max_playouts\<close> and answers with success, but
  the limit installed in the search comes from \<open>set_playout_limit(cfg_max_visits)\<close>: it is
  the configured visit limit capped at \<open>UNLIMITED_PLAYOUTS\<close>, whatever \<open>N\<close> is, and so
  equals the configured visit limit whenever that does not exceed \<open>UNLIMITED_PLAYOUTS\<close>.
  Nothing else changes.
\<close>

theorem setoption_playouts_installs_visit_limit:
  assumes "\<not> cfg_allow_pondering s" and "N \<noteq> 0"
  shows "setoption_playouts U N s =
           (s\<lparr>cfg_max_playouts := N, m_maxplayouts := min (cfg_max_visits s) U\<rparr>, gtp_ok [])
         \<and> (cfg_max_visits s \<le> U \<longrightarrow>
              m_maxplayouts (fst (setoption_playouts U N s)) = cfg_max_visits s)"
  using assms by (simp add: setoption_playouts_def set_playout_limit_def Let_def)

text \<open>Witness for C10: a visit limit of 800 and the command with \<open>N = 5\<close>; the search
  is left with a playout limit of 800.\<close>

theorem setoption_playouts_installs_visit_limit_witness:
  "setoption_playouts 1073741823 5
     \<lparr>cfg_allow_pondering = False, cfg_max_playouts = 1073741823, cfg_max_visits = 800,
      m_maxplayouts = 1073741823, m_maxvisits = 800\<rparr>
   = (\<lparr>cfg_allow_pondering = False, cfg_max_playouts = 5, cfg_max_visits = 800,
       m_maxplayouts = 800, m_maxvisits = 800\<rparr>, gtp_ok [])"
  using setoption_playouts_installs_visit_limit
    [of "\<lparr>cfg_allow_pondering = False, cfg_max_playouts = 1073741823, cfg_max_visits = 800,
      m_maxplayouts = 1073741823, m_maxvisits = 800\<rparr>" 5 1073741823]
  by simp

text \<open>
  Counterexample for C10 as stated. The option \<open>visits\<close> stores any value unchanged in
  \<open>cfg_max_visits\<close>; \<open>set_playout_limit\<close> caps its argument (``limit to type max / 2'', as
  the comment in \<open>set_visit_limit\<close> says, here \<open>1073741823\<close>). After
  \<open>lz-setoption name visits value 2147483647\<close> and
  \<open>lz-setoption name playouts value 5\<close> the installed playout limit is \<open>1073741823\<close>,
  which is not the configured visit limit \<open>2147483647\<close>.
\<close>

theorem setoption_playouts_counterexample:
  "m_maxplayouts (fst (setoption_playouts 1073741823 5
     (fst (setoption_visits 1073741823 2147483647
        \<lparr>cfg_allow_pondering = False, cfg_max_playouts = 1073741823,
         cfg_max_visits = 1073741823, m_maxplayouts = 1073741823,
         m_maxvisits = 1073741823\<rparr>)))) = 1073741823
   \<and> cfg_max_visits (fst (setoption_playouts 1073741823 5
     (fst (setoption_visits 1073741823 2147483647
        \<lparr>cfg_allow_pondering = False, cfg_max_playouts = 1073741823,
         cfg_max_visits = 1073741823, m_maxplayouts = 1073741823,
         m_maxvisits = 1073741823\<rparr>)))) = 2147483647"
  by (simp add: setoption_playouts_def setoption_visits_def set_playout_limit_def
        set_visit_limit_def Let_def)

subsection \<open>Memory configuration\<close>

text \<open>
  C9. A call of \<open>set_max_memory\<close> that returns fails exactly when the cap (the default
  cap if 0 is given) is below the base memory of the network, or the cache share yields
  fewer than \<open>MIN_CACHE_COUNT\<close> entries, or the remaining tree space is below
  \<open>MIN_TREE_SPACE\<close>. A failing call returns the message of the first of these that
  applies and leaves \<open>cfg_max_memory\<close>, \<open>cfg_max_cache_ratio_percent\<close>,
  \<open>cfg_max_tree_size\<close> and the cache as they were; a successful call stores the cap, the
  ratio and the tree size without overhead, and resizes the cache to the entry count.
\<close>

theorem set_max_memory_all_or_nothing:
  assumes "set_max_memory K remove_overhead ndebug base_memory max_memory ratio s
           = Inr (s', ok, msg)"
  shows "(ok \<longleftrightarrow> \<not> (effective_max_memory K max_memory < base_memory
                  \<or> max_cache_count K remove_overhead base_memory max_memory ratio
                      <s MIN_CACHE_COUNT K
                  \<or> max_tree_size K base_memory max_memory ratio < MIN_TREE_SPACE K))
       \<and> (\<not> ok \<longrightarrow> s' = s
            \<and> msg = (if effective_max_memory K max_memory < base_memory
                      then ''Not enough memory for network. ''
                           @ to_string (unat (base_memory div MiB K)) @ '' MiB required.''
                      else if max_cache_count K remove_overhead base_memory max_memory ratio
                              <s MIN_CACHE_COUNT K
                      then ''Not enough memory for cache.''
                      else ''Not enough memory for search tree.''))
       \<and> (ok \<longrightarrow> cfg_max_memory s' = effective_max_memory K max_memory
            \<and> cfg_max_cache_ratio_percent s' = ratio
            \<and> cfg_max_tree_size s'
                = remove_overhead (max_tree_size K base_memory max_memory ratio)
            \<and> nncache_resize_calls s'
                = max_cache_count K remove_overhead base_memory max_memory ratio
                  # nncache_resize_calls s)"
  using assms unfolding set_max_memory_def
  by (auto split: if_splits)

text \<open>
  Witness for C9, with \<open>MiB = 2^20\<close>, a default cap of 2048 MiB, a minimal tree space of
  100000000 bytes, cache entries of 1500 bytes, at least 6000 of them, an overhead of one
  eleventh, and a network of 100000000 bytes without OpenCL. The default cap with a cache
  share of 10 percent is accepted; a cap of 128 MiB is refused for the cache and changes
  nothing.
\<close>

theorem set_max_memory_all_or_nothing_witness:
  "set_max_memory
     \<lparr>MiB = 1048576, DEFAULT_MAX_MEMORY = 2147483648, MIN_TREE_SPACE = 100000000,
      ENTRY_SIZE = 1500, MIN_CACHE_COUNT = 6000\<rparr>
     (\<lambda>x. x * 10 div 11) False
     (get_base_memory
        \<lparr>MiB = 1048576, DEFAULT_MAX_MEMORY = 2147483648, MIN_TREE_SPACE = 100000000,
         ENTRY_SIZE = 1500, MIN_CACHE_COUNT = 6000\<rparr> False 100000000 1)
     0 10
     \<lparr>cfg_max_memory = 0, cfg_max_cache_ratio_percent = 1, cfg_max_tree_size = 0,
      nncache_resize_calls = []\<rparr>
   = Inr (\<lparr>cfg_max_memory = 2147483648, cfg_max_cache_ratio_percent = 10,
           cfg_max_tree_size = 1675213894, nncache_resize_calls = [124089]\<rparr>,
          True, ''Setting max tree size to 1757 MiB and cache size to 195 MiB.'')
   \<and> set_max_memory
     \<lparr>MiB = 1048576, DEFAULT_MAX_MEMORY = 2147483648, MIN_TREE_SPACE = 100000000,
      ENTRY_SIZE = 1500, MIN_CACHE_COUNT = 6000\<rparr>
     (\<lambda>x. x * 10 div 11) False
     (get_base_memory
        \<lparr>MiB = 1048576, DEFAULT_MAX_MEMORY = 2147483648, MIN_TREE_SPACE = 100000000,
         ENTRY_SIZE = 1500, MIN_CACHE_COUNT = 6000\<rparr> False 100000000 1)
     134217728 10
     \<lparr>cfg_max_memory = 2147483648, cfg_max_cache_ratio_percent = 10,
      cfg_max_tree_size = 1675213894, nncache_resize_calls = [124089]\<rparr>
   = Inr (\<lparr>cfg_max_memory = 2147483648, cfg_max_cache_ratio_percent = 10,
           cfg_max_tree_size = 1675213894, nncache_resize_calls = [124089]\<rparr>,
          False, ''Not enough memory for cache.'')"
proof -
  have ok: "set_max_memory
     \<lparr>MiB = 1048576, DEFAULT_MAX_MEMORY = 2147483648, MIN_TREE_SPACE = 100000000,
      ENTRY_SIZE = 1500, MIN_CACHE_COUNT = 6000\<rparr>
     (\<lambda>x. x * 10 div 11) False
     (get_base_memory
        \<lparr>MiB = 1048576, DEFAULT_MAX_MEMORY = 2147483648, MIN_TREE_SPACE = 100000000,
         ENTRY_SIZE = 1500, MIN_CACHE_COUNT = 6000\<rparr> False 100000000 1)
     0 10
     \<lparr>cfg_max_memory = 0, cfg_max_cache_ratio_percent = 1, cfg_max_tree_size = 0,
      nncache_resize_calls = []\<rparr>
   = Inr (\<lparr>cfg_max_memory = 2147483648, cfg_max_cache_ratio_percent = 10,
           cfg_max_tree_size = 1675213894, nncache_resize_calls = [124089]\<rparr>,
          True, ''Setting max tree size to 1757 MiB and cache size to 195 MiB.'')"
    by code_simp
  have refused: "set_max_memory
     \<lparr>MiB = 1048576, DEFAULT_MAX_MEMORY = 2147483648, MIN_TREE_SPACE = 100000000,
      ENTRY_SIZE = 1500, MIN_CACHE_COUNT = 6000\<rparr>
     (\<lambda>x. x * 10 div 11) False
     (get_base_memory
        \<lparr>MiB = 1048576, DEFAULT_MAX_MEMORY = 2147483648, MIN_TREE_SPACE = 100000000,
         ENTRY_SIZE = 1500, MIN_CACHE_COUNT = 6000\<rparr> False 100000000 1)
     134217728 10
     \<lparr>cfg_max_memory = 2147483648, cfg_max_cache_ratio_percent = 10,
      cfg_max_tree_size = 1675213894, nncache_resize_calls = [124089]\<rparr>
   = Inr (\<lparr>cfg_max_memory = 2147483648, cfg_max_cache_ratio_percent = 10,
           cfg_max_tree_size = 1675213894, nncache_resize_calls = [124089]\<rparr>,
          False, ''Not enough memory for cache.'')"
    by code_simp
  from set_max_memory_all_or_nothing [OF ok] set_max_memory_all_or_nothing [OF refused]
    ok refused
  show ?thesis by blast
qed

subsection \<open>Resignation\<close>

lemma move_threshold_iff: "(m > a div 4) = (4 * m > (a::nat))"
  by presburger

lemma should_resign_iff:
  "should_resign fl rp rs pf be \<longleftrightarrow>
     NORESIGN \<notin> pf \<and> rp \<noteq> 0 \<and> 4 * movenum rs > boardsize rs * boardsize rs
     \<and> be \<le> resign_threshold fl rp
     \<and> (handicap rs > 0 \<and> to_move rs = WHITE \<and> rp < 0 \<longrightarrow>
          be \<le> blended_resign_threshold fl rp rs)"
  unfolding should_resign_def Let_def
  by (auto simp: move_threshold_iff not_le not_less)

lemma get_best_move_pass_returns:
  "children \<noteq> [] \<Longrightarrow> get_best_move_pass dp rs children nopass pf \<noteq> Inl a"
  unfolding get_best_move_pass_def Let_def
  by (simp split: list.splits option.splits)

lemma get_best_move_pass_nonempty:
  assumes "children \<noteq> []"
  shows "\<exists>bm be. get_best_move_pass dp rs children nopass pf = Inr (bm, be)"
proof (cases "get_best_move_pass dp rs children nopass pf")
  case (Inl a)
  with get_best_move_pass_returns [OF assms] show ?thesis by (cases a) blast
next
  case (Inr r)
  then show ?thesis by (cases r) simp
qed

lemma get_best_move_pass_not_resign:
  assumes "get_best_move_pass dp rs children nopass pf = Inr (bm, be)"
    and "\<forall>c \<in> set children. get_move c \<noteq> RESIGN"
    and "\<forall>c. nopass = Some c \<longrightarrow> get_move c \<noteq> RESIGN"
  shows "bm \<noteq> RESIGN"
  using assms unfolding get_best_move_pass_def Let_def
  by (auto split: list.splits option.splits if_splits)

lemma should_resign_expanded:
  "should_resign fl rp rs pf be \<longleftrightarrow>
        NORESIGN \<notin> pf \<and> rp \<noteq> 0
        \<and> 4 * movenum rs > boardsize rs * boardsize rs
        \<and> be \<le> fl_mul fl (fl_lit fl 0.01) (fl_of_int fl (if rp < 0 then 10 else rp))
        \<and> (handicap rs > 0 \<and> to_move rs = WHITE \<and> rp < 0 \<longrightarrow>
             (let threshold = fl_mul fl (fl_lit fl 0.01) (fl_of_int fl 10);
                  r = min 1 (fl_div fl (fl_of_int fl (int (movenum rs)))
                               (fl_mul fl (fl_lit fl 0.6)
                                  (fl_of_int fl (int (boardsize rs * boardsize rs)))))
              in be \<le>
                   fl_add fl (fl_mul fl r threshold)
                     (fl_mul fl (fl_sub fl 1 r)
                        (fl_div fl threshold (fl_of_int fl (1 + handicap rs))))))"
  unfolding should_resign_iff
  by (auto simp: Let_def resign_threshold_def blended_resign_threshold_def
        handicap_resign_threshold_def blend_ratio_def)

text \<open>A move other than \<open>PASS\<close> that comes out of the pass heuristics is the move of a
  child of the root, and the evaluation that comes with it is that child's: either the
  first child, whose move is then not \<open>PASS\<close>, with \<open>get_raw_eval(color)\<close>, or 0.5 if it
  has no visit; or the child that \<open>get_nopass_child\<close> offers instead of a first child
  \<open>PASS\<close>, with \<open>get_raw_eval(color)\<close>, or 1 if it has no visit. \<open>color\<close> is the side to
  move.\<close>

lemma get_best_move_pass_chosen:
  assumes "get_best_move_pass dp rs children nopass pf = Inr (bm, be)"
    and "bm \<noteq> PASS"
  shows "\<exists>chosen. (chosen = hd children \<or> nopass = Some chosen)
           \<and> bm = get_move chosen
           \<and> be = (if first_visit chosen
                    then (if get_move (hd children) = PASS then 1 else 0.5)
                    else get_raw_eval chosen (to_move rs))"
proof (cases children)
  case Nil
  with assms show ?thesis by (simp add: get_best_move_pass_def)
next
  case (Cons first others)
  show ?thesis
  proof (cases "bm = get_move first \<and> get_move first \<noteq> PASS")
    case True
    with assms Cons have
      "be = (if first_visit first then 0.5 else get_raw_eval first (to_move rs))"
      unfolding get_best_move_pass_def Let_def
      by (auto split: option.splits if_splits)
    with True Cons show ?thesis by (intro exI [of _ first]) simp
  next
    case False
    with assms Cons obtain np where np: "nopass = Some np" and p: "get_move first = PASS"
      and m: "bm = get_move np"
      and e: "be = (if first_visit np then 1 else get_raw_eval np (to_move rs))"
      unfolding get_best_move_pass_def Let_def
      by (auto split: option.splits if_splits)
    with Cons show ?thesis by (intro exI [of _ np]) simp
  qed
qed

text \<open>
  C7. The children of the root and the child offered instead of a pass carry moves of the
  game, never \<open>RESIGN\<close>. Then \<open>think\<close> returns \<open>RESIGN\<close> exactly when the root has
  children, the move chosen by the pass heuristics is not \<open>PASS\<close>, \<open>NORESIGN\<close> is not set,
  the resign percentage is not zero, the move number exceeds a quarter of the board area,
  and the winrate \<open>besteval\<close> of the chosen child for the side to move is at most the
  resign threshold, which is \<open>0.01f * cfg_resignpct\<close>, with 10 in the place of a negative
  \<open>cfg_resignpct\<close> (the default); with a handicap, White to move and the default
  threshold, \<open>besteval\<close> must also be at most the blend
  \<open>r * resign_threshold + (1 - r) * (resign_threshold / (1 + handicap))\<close> with
  \<open>r = min(1, movenum / (0.6f * board_area))\<close>. The chosen child is the first child of
  the root or the child that replaces a first child \<open>PASS\<close>; \<open>besteval\<close> is its
  \<open>get_raw_eval\<close> for the side to move, and for a child without visits it is 0.5, or 1
  when the child replaces a pass. Thresholds and blend are computed in \<open>float\<close>.
\<close>

theorem think_resigns_iff:
  assumes "\<forall>c \<in> set children. get_move c \<noteq> RESIGN"
    and "\<forall>c. nopass = Some c \<longrightarrow> get_move c \<noteq> RESIGN"
  shows "think_result fl dp rp rs children nopass pf = Inr RESIGN \<longleftrightarrow>
     (\<exists>bestmove besteval chosen.
        children \<noteq> []
        \<and> get_best_move_pass dp rs children nopass pf = Inr (bestmove, besteval)
        \<and> bestmove \<noteq> PASS
        \<and> (chosen = hd children \<or> nopass = Some chosen)
        \<and> bestmove = get_move chosen
        \<and> besteval = (if first_visit chosen
                       then (if get_move (hd children) = PASS then 1 else 0.5)
                       else get_raw_eval chosen (to_move rs))
        \<and> NORESIGN \<notin> pf \<and> rp \<noteq> 0
        \<and> 4 * movenum rs > boardsize rs * boardsize rs
        \<and> besteval \<le> fl_mul fl (fl_lit fl 0.01) (fl_of_int fl (if rp < 0 then 10 else rp))
        \<and> (handicap rs > 0 \<and> to_move rs = WHITE \<and> rp < 0 \<longrightarrow>
             (let threshold = fl_mul fl (fl_lit fl 0.01) (fl_of_int fl 10);
                  r = min 1 (fl_div fl (fl_of_int fl (int (movenum rs)))
                               (fl_mul fl (fl_lit fl 0.6)
                                  (fl_of_int fl (int (boardsize rs * boardsize rs)))))
              in besteval \<le>
                   fl_add fl (fl_mul fl r threshold)
                     (fl_mul fl (fl_sub fl 1 r)
                        (fl_div fl threshold (fl_of_int fl (1 + handicap rs)))))))"
  (is "?lhs \<longleftrightarrow> (\<exists>bestmove besteval chosen. ?rhs bestmove besteval chosen)")
proof (cases "children = []")
  case True
  then show ?thesis by (simp add: think_result_def)
next
  case False
  then obtain bm be where r: "get_best_move_pass dp rs children nopass pf = Inr (bm, be)"
    using get_best_move_pass_nonempty by blast
  have nr: "bm \<noteq> RESIGN"
    using get_best_move_pass_not_resign [OF r assms] .
  have t: "?lhs \<longleftrightarrow> bm \<noteq> PASS \<and> should_resign fl rp rs pf be"
    using False r nr by (simp add: think_result_def get_best_move_def)
  note sr = should_resign_expanded [of fl rp rs pf be]
  show ?thesis
  proof
    assume ?lhs
    with t have p: "bm \<noteq> PASS" and s: "should_resign fl rp rs pf be" by simp_all
    from get_best_move_pass_chosen [OF r p] obtain chosen where
      "(chosen = hd children \<or> nopass = Some chosen) \<and> bm = get_move chosen
       \<and> be = (if first_visit chosen
                then (if get_move (hd children) = PASS then 1 else 0.5)
                else get_raw_eval chosen (to_move rs))"
      by blast
    with False r p s [unfolded sr] have "?rhs bm be chosen" by simp
    then show "\<exists>bestmove besteval chosen. ?rhs bestmove besteval chosen" by blast
  next
    assume "\<exists>bestmove besteval chosen. ?rhs bestmove besteval chosen"
    then obtain bestmove besteval chosen where h: "?rhs bestmove besteval chosen" by blast
    with r have eq: "bestmove = bm" "besteval = be" by simp_all
    from h have "bestmove \<noteq> PASS" by blast
    with eq have "bm \<noteq> PASS" by simp
    moreover from h have "should_resign fl rp rs pf besteval"
      unfolding should_resign_expanded by blast
    ultimately show ?lhs using t eq by simp
  qed
qed

text \<open>
  Witness for C7, in single precision on a 19 x 19 board at move 100 with the default
  resign percentage. Black to move with a best child at 1/16: \<open>think\<close> resigns. White to
  move in a game with four handicap stones and a best child at 5/64, which is below the
  resign threshold but above the blended threshold: \<open>think\<close> plays the move.
\<close>

theorem think_resigns_iff_witness:
  "think_result ieee_single False (- 1)
      \<lparr>boardsize = 19, movenum = 100, to_move = BLACK, handicap = 0, final_score = 0,
           last_move = Vertex 5\<rparr>
      [\<lparr>get_move = Vertex 3, first_visit = False,
         get_raw_eval = (\<lambda>c. if c = BLACK then 1 / 16 else 15 / 16)\<rparr>] None NORMAL = Inr RESIGN
   \<and> think_result ieee_single False (- 1)
      \<lparr>boardsize = 19, movenum = 100, to_move = WHITE, handicap = 4, final_score = 0,
           last_move = Vertex 5\<rparr>
      [\<lparr>get_move = Vertex 3, first_visit = False,
         get_raw_eval = (\<lambda>c. if c = BLACK then 59 / 64 else 5 / 64)\<rparr>] None NORMAL
     = Inr (Vertex 3)"
proof -
  let ?b = "\<lparr>boardsize = 19, movenum = 100, to_move = BLACK, handicap = 0, final_score = 0,
           last_move = Vertex 5\<rparr>"
  let ?w = "\<lparr>boardsize = 19, movenum = 100, to_move = WHITE, handicap = 4, final_score = 0,
           last_move = Vertex 5\<rparr>"
  let ?cb = "\<lparr>get_move = Vertex 3, first_visit = False,
         get_raw_eval = (\<lambda>c. if c = BLACK then 1 / 16 else 15 / 16)\<rparr>"
  let ?cw = "\<lparr>get_move = Vertex 3, first_visit = False,
         get_raw_eval = (\<lambda>c. if c = BLACK then 59 / 64 else 5 / 64)\<rparr>"
  have rt: "resign_threshold ieee_single (- 1) = 3355443 / 33554432"
    by (simp add: resign_threshold_def ieee_single_simps)
  have bt: "blended_resign_threshold ieee_single (- 1) ?w = 7641611 / 134217728"
    by (simp add: blended_resign_threshold_def handicap_resign_threshold_def
          resign_threshold_def blend_ratio_def ieee_single_simps)
  have sb: "should_resign ieee_single (- 1) ?b NORMAL (1 / 16)"
    by (simp add: should_resign_iff rt NORMAL_def)
  have sw: "\<not> should_resign ieee_single (- 1) ?w NORMAL (5 / 64)"
    by (simp add: should_resign_iff rt bt NORMAL_def)
  have pb: "get_best_move_pass False ?b [?cb] None NORMAL = Inr (Vertex 3, 1 / 16)"
    by (simp add: get_best_move_pass_def NORMAL_def)
  have pw: "get_best_move_pass False ?w [?cw] None NORMAL = Inr (Vertex 3, 5 / 64)"
    by (simp add: get_best_move_pass_def NORMAL_def)
  have hb: "\<forall>c \<in> set [?cb]. get_move c \<noteq> RESIGN" by simp
  have hn: "\<forall>c. (None :: rootchild option) = Some c \<longrightarrow> get_move c \<noteq> RESIGN" by simp
  have 1: "think_result ieee_single False (- 1) ?b [?cb] None NORMAL = Inr RESIGN"
    apply (rule iffD2 [OF think_resigns_iff [OF hb hn]])
    apply (rule exI [of _ "Vertex 3"])
    apply (rule exI [of _ "1 / 16"])
    apply (rule exI [of _ ?cb])
    apply (insert pb sb [unfolded should_resign_expanded])
    apply simp
    done
  have 2: "think_result ieee_single False (- 1) ?w [?cw] None NORMAL = Inr (Vertex 3)"
    using pw sw by (simp add: think_result_def get_best_move_def)
  from 1 2 show ?thesis by simp
qed

text \<open>Rounding decides at the threshold. With a resign percentage of 7 the threshold
  \<open>0.01f * 7\<close> is the float nearest to 0.07, which is above 7/100, and with an evaluation
  of just that float \<open>should_resign\<close> answers yes. The default threshold \<open>0.01f * 10\<close>
  is the float just below the one nearest to 0.1.\<close>

lemma should_resign_at_rounded_threshold:
  "resign_threshold ieee_single 7 = binary32 (7 / 100)"
  "(7 / 100 :: real) < binary32 (7 / 100)"
  "should_resign ieee_single 7
       \<lparr>boardsize = 19, movenum = 100, to_move = BLACK, handicap = 0, final_score = 0,
           last_move = Vertex 5\<rparr> NORMAL (binary32 (7 / 100))"
  "resign_threshold ieee_single (- 1) = 3355443 / 33554432"
  "resign_threshold ieee_single (- 1) < binary32 (1 / 10)"
proof -
  have t: "resign_threshold ieee_single 7 = 9395241 / 134217728"
    by (simp add: resign_threshold_def ieee_single_simps)
  then show a: "resign_threshold ieee_single 7 = binary32 (7 / 100)"
    by (simp only: binary32_examples)
  show "(7 / 100 :: real) < binary32 (7 / 100)"
    by (simp add: binary32_examples)
  show "should_resign ieee_single 7
       \<lparr>boardsize = 19, movenum = 100, to_move = BLACK, handicap = 0, final_score = 0,
           last_move = Vertex 5\<rparr> NORMAL (binary32 (7 / 100))"
    unfolding should_resign_iff a by (simp add: NORMAL_def)
  show d: "resign_threshold ieee_single (- 1) = 3355443 / 33554432"
    by (simp add: resign_threshold_def ieee_single_simps)
  show "resign_threshold ieee_single (- 1) < binary32 (1 / 10)"
    by (simp add: d binary32_examples)
qed

subsection \<open>Pass heuristics\<close>

text \<open>
  C4 (as amended). In \<open>get_best_move\<close> without \<open>NOPASS\<close> and with \<open>cfg_dumbpass\<close> off, let
  \<open>relative_score\<close> be the final score for the side to move. If the first (most visited)
  child is \<open>PASS\<close>: when passing wins, \<open>PASS\<close> is kept; when passing loses, the non-pass
  child offered by \<open>get_nopass_child\<close> is substituted if there is one, and \<open>PASS\<close> is kept
  otherwise; when passing draws, that child is substituted only if it has visits and an
  evaluation above 0.5, and \<open>PASS\<close> is kept otherwise. If the first child is not \<open>PASS\<close>
  and the opponent's last move was \<open>PASS\<close>: when passing wins, \<open>PASS\<close> is substituted;
  when it loses, the move is kept; when it draws, \<open>PASS\<close> is substituted if the
  evaluation is below 0.5. Otherwise the first child's move is kept. A chosen \<open>PASS\<close> is
  what \<open>think\<close> returns; in particular, where passing wins by 10 after a pass of the
  opponent, \<open>think\<close> returns \<open>PASS\<close>.
\<close>

theorem get_best_move_pass_heuristics:
  assumes "NOPASS \<notin> pf" and "\<not> dumbpass"
    and "get_best_move_pass dumbpass rs (first # others) nopass pf = Inr (bestmove, besteval)"
  shows "(get_move first = PASS \<and> relative_score rs > 0 \<longrightarrow> bestmove = PASS)
     \<and> (get_move first = PASS \<and> relative_score rs < 0 \<longrightarrow>
          bestmove = (case nopass of Some np \<Rightarrow> get_move np | None \<Rightarrow> PASS))
     \<and> (get_move first = PASS \<and> relative_score rs = 0 \<longrightarrow>
          bestmove = (case nopass of
                        Some np \<Rightarrow> if \<not> first_visit np \<and> get_raw_eval np (to_move rs) > 0.5
                                   then get_move np else PASS
                      | None \<Rightarrow> PASS))
     \<and> (get_move first \<noteq> PASS \<and> last_move rs = PASS \<and> relative_score rs > 0 \<longrightarrow>
          bestmove = PASS)
     \<and> (get_move first \<noteq> PASS \<and> last_move rs = PASS \<and> relative_score rs < 0 \<longrightarrow>
          bestmove = get_move first)
     \<and> (get_move first \<noteq> PASS \<and> last_move rs = PASS \<and> relative_score rs = 0 \<longrightarrow>
          bestmove = (if (if first_visit first then 0.5 else get_raw_eval first (to_move rs)) < 0.5
                      then PASS else get_move first))
     \<and> (get_move first \<noteq> PASS \<and> last_move rs \<noteq> PASS \<longrightarrow> bestmove = get_move first)
     \<and> (bestmove = PASS \<longrightarrow>
          think_result fl dumbpass resignpct rs (first # others) nopass pf = Inr PASS)
     \<and> (relative_score rs = 10 \<and> last_move rs = PASS \<longrightarrow>
          think_result fl dumbpass resignpct rs (first # others) nopass pf = Inr PASS)"
  using assms unfolding get_best_move_pass_def think_result_def get_best_move_def Let_def
  by (auto split: option.splits if_splits)

text \<open>Witness for C4: Black to move after a pass of White, the final score is 10 for
  Black, and the most visited child is a move on the board; \<open>think\<close> returns \<open>PASS\<close>.\<close>

theorem get_best_move_pass_heuristics_witness:
  "think_result ieee_single False (- 1)
      \<lparr>boardsize = 19, movenum = 200, to_move = BLACK, handicap = 0, final_score = 10,
           last_move = PASS\<rparr>
      [\<lparr>get_move = Vertex 3, first_visit = False,
         get_raw_eval = (\<lambda>c. if c = BLACK then 0.9 else 0.1)\<rparr>] None NORMAL = Inr PASS"
proof -
  have r: "get_best_move_pass False
      \<lparr>boardsize = 19, movenum = 200, to_move = BLACK, handicap = 0, final_score = 10,
           last_move = PASS\<rparr>
      [\<lparr>get_move = Vertex 3, first_visit = False,
         get_raw_eval = (\<lambda>c. if c = BLACK then 0.9 else 0.1)\<rparr>] None NORMAL
      = Inr (PASS, 0.9)"
    by (simp add: get_best_move_pass_def relative_score_def NORMAL_def)
  have n: "NOPASS \<notin> NORMAL" by (simp add: NORMAL_def)
  from get_best_move_pass_heuristics [OF n _ r, of ieee_single "- 1"]
  show ?thesis by (simp add: relative_score_def)
qed

text \<open>
  Counterexample for C4 as stated. The most visited move is \<open>PASS\<close> and passing is not
  confirmed to win, yet no other child is substituted and \<open>think\<close> returns \<open>PASS\<close>: first
  in a drawn position (final score 0) where the best other child has visits and an
  evaluation of 0.4, then in a lost position (final score -3 for the side to move) where
  \<open>get_nopass_child\<close> offers no child.
\<close>

theorem get_best_move_pass_counterexample:
  "get_move \<lparr>get_move = PASS, first_visit = False,
         get_raw_eval = (\<lambda>c. 0.5)\<rparr> = PASS
   \<and> relative_score \<lparr>boardsize = 19, movenum = 200, to_move = BLACK, handicap = 0,
         final_score = 0, last_move = Vertex 7\<rparr> = 0
   \<and> think_result ieee_single False (- 1)
      \<lparr>boardsize = 19, movenum = 200, to_move = BLACK, handicap = 0, final_score = 0,
           last_move = Vertex 7\<rparr>
      [\<lparr>get_move = PASS, first_visit = False, get_raw_eval = (\<lambda>c. 0.5)\<rparr>,
       \<lparr>get_move = Vertex 3, first_visit = False, get_raw_eval = (\<lambda>c. 0.4)\<rparr>]
      (Some \<lparr>get_move = Vertex 3, first_visit = False, get_raw_eval = (\<lambda>c. 0.4)\<rparr>)
      NORMAL = Inr PASS
   \<and> relative_score \<lparr>boardsize = 19, movenum = 200, to_move = BLACK, handicap = 0,
         final_score = - 3, last_move = Vertex 7\<rparr> < 0
   \<and> think_result ieee_single False (- 1)
      \<lparr>boardsize = 19, movenum = 200, to_move = BLACK, handicap = 0, final_score = - 3,
           last_move = Vertex 7\<rparr>
      [\<lparr>get_move = PASS, first_visit = False, get_raw_eval = (\<lambda>c. 0.5)\<rparr>]
      None NORMAL = Inr PASS"
  by (simp add: think_result_def get_best_move_def get_best_move_pass_def relative_score_def
        NORMAL_def)

subsection \<open>Stopping early\<close>

lemma mark_noncontenders_eq:
  "mark_noncontenders fl prune m cs =
     (if prune
      then map (\<lambda>c. if valid c then c\<lparr>active := (get_visits c \<ge> fl_of_int fl m)\<rparr> else c) cs
      else cs,
      length (filter (\<lambda>c. valid c \<and> get_visits c < fl_of_int fl m) cs))"
  by (induction cs) (auto simp: Let_def split: prod.splits)

lemma prune_noncontenders_eq:
  "prune_noncontenders fl ndebug s e t prune =
     (if \<not> ndebug \<and> \<not> pruned_count fl s e t < length (root_children s)
      then Inl AssertionFailed
      else Inr (s\<lparr>root_children :=
                   (if prune
                    then map (\<lambda>c. if valid c
                                   then c\<lparr>active := (get_visits c
                                            \<ge> fl_of_int fl (min_required_visits fl s e t))\<rparr>
                                   else c) (root_children s)
                    else root_children s)\<rparr>, pruned_count fl s e t))"
  unfolding prune_noncontenders_def Let_def mark_noncontenders_eq pruned_count_def
    min_required_visits_def
  by simp

text \<open>Where assertions are compiled out, \<open>have_alternate_moves\<close> always returns.\<close>

lemma have_alternate_moves_returns:
  "have_alternate_moves fl True tm U acc s e t \<noteq> Inl a"
  unfolding have_alternate_moves_def prune_noncontenders_eq Let_def by simp






text \<open>Rounding decides here, too. After 100 playouts in 1.49 seconds, with 1.49 seconds
  left, the rate is rounded up, its product with the time left is above 100, and the
  estimate is 101 playouts. A product beyond the range of \<open>int\<close> gives a negative
  estimate.\<close>

lemma est_playouts_left_rounded:
  "est_playouts_left ieee_single
     \<lparr>sl_playouts = 100, sl_maxplayouts = 1073741823, sl_maxvisits = 1073741823,
        root_visits = 100, root_children = []\<rparr> 149 298 = 101"
  "est_playouts_left ieee_single
     \<lparr>sl_playouts = 1000000, sl_maxplayouts = 1073741823, sl_maxvisits = 1073741823,
        root_visits = 100, root_children = []\<rparr> 100 1000000 = - 2147483648"
proof -
  have a: "fl_to_int ieee_single (fl_ceil ieee_single (fl_mul ieee_single
             (fl_div ieee_single (fl_mul ieee_single 1 (fl_of_int ieee_single 100))
                (fl_of_int ieee_single 149))
             (fl_of_int ieee_single 149))) = 101"
    by (simp add: ieee_single_simps)
  have b: "fl_to_int ieee_single (fl_ceil ieee_single (fl_mul ieee_single
             (fl_div ieee_single (fl_mul ieee_single 1 (fl_of_int ieee_single 1000000))
                (fl_of_int ieee_single 100))
             (fl_of_int ieee_single 999900))) = - 2147483648"
    by (simp add: ieee_single_simps)
  show "est_playouts_left ieee_single
     \<lparr>sl_playouts = 100, sl_maxplayouts = 1073741823, sl_maxvisits = 1073741823,
        root_visits = 100, root_children = []\<rparr> 149 298 = 101"
    by (simp add: est_playouts_left_def Let_def a ieee_single_examples)
  show "est_playouts_left ieee_single
     \<lparr>sl_playouts = 1000000, sl_maxplayouts = 1073741823, sl_maxvisits = 1073741823,
        root_visits = 100, root_children = []\<rparr> 100 1000000 = - 2147483648"
    by (simp add: est_playouts_left_def Let_def b ieee_single_examples)
qed

subsection \<open>The root lock\<close>

lemma sum_list_map_update:
  "i < length rs \<Longrightarrow>
   sum_list (map f (rs[i := pc])) = sum_list (map f rs) - f (rs ! i) + (f pc :: int)"
  by (induction rs arbitrary: i) (auto split: nat.splits)

lemma counted_update:
  "i < length rs \<Longrightarrow>
   counted_readers (rs[i := pc]) =
     counted_readers rs - (if rs ! i = R_undo \<or> rs ! i = R_holding then 1 else 0)
       + (if pc = R_undo \<or> pc = R_holding then 1 else 0)"
  unfolding counted_readers_def by (rule sum_list_map_update)

lemma counted_nonneg: "0 \<le> counted_readers rs"
  unfolding counted_readers_def by (induction rs) auto

lemma counted_le: "counted_readers rs \<le> int (length rs)"
  unfolding counted_readers_def by (induction rs) auto

lemma counted_holding: "R_holding \<in> set rs \<Longrightarrow> 1 \<le> counted_readers rs"
proof (induction rs)
  case Nil
  then show ?case by simp
next
  case (Cons a rs)
  have "0 \<le> counted_readers rs" by (rule counted_nonneg)
  with Cons show ?case by (auto simp: counted_readers_def)
qed

lemma counted_zero: "counted_readers rs \<le> 0 \<Longrightarrow> R_holding \<notin> set rs"
  using counted_holding by fastforce

lemma holding_update:
  "R_holding \<notin> set rs \<Longrightarrow> pc \<noteq> R_holding \<Longrightarrow> R_holding \<notin> set (rs[i := pc])"
  using set_update_subset_insert [of rs i pc] by auto

lemma lock_step_invariant:
  assumes "lock_invariant s"
  shows "lock_invariant (lock_step s e)"
proof (cases e)
  case (Reader i)
  show ?thesis
  proof (cases "i < length (readers s)")
    case False
    with Reader assms show ?thesis by simp
  next
    case True
    show ?thesis
    proof (cases "readers s ! i")
      case R_idle
      then have "(readers s)[i := R_idle] = readers s" by (metis list_update_id)
      with R_idle True Reader assms show ?thesis
        by (auto simp: lock_invariant_def counted_update holding_update)
    next
      case R_checked
      with True Reader assms counted_nonneg [of "readers s"] show ?thesis
        by (auto simp: lock_invariant_def counted_update holding_update dest: counted_zero)
    next
      case R_undo
      with True Reader assms show ?thesis
        by (auto simp: lock_invariant_def counted_update holding_update)
    next
      case R_holding
      with True Reader assms show ?thesis
        by (auto simp: lock_invariant_def counted_update holding_update)
    qed
  qed
next
  case Writer
  with assms show ?thesis
    using counted_holding [of "readers s"]
    by (cases "writer s") (auto simp: lock_invariant_def)
qed

lemma lock_step_length: "length (readers (lock_step s e)) = length (readers s)"
  by (cases e) (auto split: prod.splits)

lemma lock_foldl_invariant:
  "lock_invariant s \<Longrightarrow> lock_invariant (foldl lock_step s es)"
  by (induction es arbitrary: s) (auto intro: lock_step_invariant)

lemma lock_foldl_length: "length (readers (foldl lock_step s es)) = length (readers s)"
  by (induction es arbitrary: s) (auto simp: lock_step_length)

lemma counted_replicate_idle: "counted_readers (replicate n R_idle) = 0"
  unfolding counted_readers_def by (induction n) auto

lemma lock_init_invariant: "lock_invariant (lock_init n)"
  by (simp add: lock_invariant_def lock_init_def counted_replicate_idle)

lemma lock_run_invariant: "lock_invariant (lock_run n es)"
  unfolding lock_run_def by (rule lock_foldl_invariant [OF lock_init_invariant])

lemma lock_run_length: "length (readers (lock_run n es)) = n"
  unfolding lock_run_def by (simp add: lock_foldl_length lock_init_def)

text \<open>
  C2 (as amended). A reader's \<open>fetch_add(1)\<close> is undone, and the acquisition retried,
  exactly when the value before the addition is 128 or more, that is when the new value
  exceeds 128; the acquisition succeeds exactly when the previous value is below 128, and
  then leaves the counter at 128 or less. The writer leaves its loop exactly when the
  counter is 128. In every state that any number of readers and the writer reach from
  the initial state, under any schedule, the writer does not hold the lock together with
  any reader, and the counter is between 0 and 128 plus the number of readers.
\<close>

theorem root_lock_safe:
  "(snd (reader_step lock R_checked) = R_undo \<longleftrightarrow> lock \<ge> 128)
   \<and> (snd (reader_step lock R_checked) = R_holding \<longleftrightarrow> lock < 128)
   \<and> (snd (reader_step lock R_checked) = R_holding \<longrightarrow> fst (reader_step lock R_checked) \<le> 128)
   \<and> (snd (writer_step lock W_spinning) = W_holding \<longleftrightarrow> lock = 128)
   \<and> \<not> (writer (lock_run n schedule) = W_holding
          \<and> R_holding \<in> set (readers (lock_run n schedule)))
   \<and> 0 \<le> m_root_lock (lock_run n schedule)
   \<and> m_root_lock (lock_run n schedule) \<le> 128 + int n"
proof -
  let ?s = "lock_run n schedule"
  have inv: "lock_invariant ?s" by (rule lock_run_invariant)
  have len: "length (readers ?s) = n" by (rule lock_run_length)
  have c0: "0 \<le> counted_readers (readers ?s)" by (rule counted_nonneg)
  have c1: "counted_readers (readers ?s) \<le> int n" using counted_le [of "readers ?s"] len by simp
  from inv c0 c1 show ?thesis by (auto simp: lock_invariant_def)
qed

text \<open>Witness for C2: a schedule of two readers and the writer, in which the writer
  waits for the first reader and the second reader is turned away.\<close>

theorem root_lock_safe_witness:
  "lock_run 2 [Reader 0, Reader 0, Writer, Reader 1, Writer, Reader 1, Reader 0, Writer]
     = \<lparr>m_root_lock = 128, readers = [R_idle, R_idle], writer = W_holding\<rparr>
   \<and> \<not> (writer (lock_run 2 [Reader 0, Reader 0, Writer, Reader 1, Writer, Reader 1,
                              Reader 0, Writer]) = W_holding
          \<and> R_holding \<in> set (readers (lock_run 2 [Reader 0, Reader 0, Writer, Reader 1,
                                                  Writer, Reader 1, Reader 0, Writer])))"
proof -
  have e: "lock_run 2 [Reader 0, Reader 0, Writer, Reader 1, Writer, Reader 1, Reader 0, Writer]
     = \<lparr>m_root_lock = 128, readers = [R_idle, R_idle], writer = W_holding\<rparr>"
    by code_simp
  from root_lock_safe [of 0 2 "[Reader 0, Reader 0, Writer, Reader 1, Writer, Reader 1,
                                Reader 0, Writer]"] e
  show ?thesis by simp
qed

text \<open>
  Counterexample for C2 as stated. At the value 127 the new value 128 exceeds 127, but the
  increment is not undone: the acquisition succeeds and leaves the counter at the
  writer's value 128. The state is reached when 128 readers acquire the lock one after
  the other.
\<close>

theorem root_lock_counterexample:
  "reader_step 127 R_checked = (128, R_holding)
   \<and> lock_run 128 (concat (map (\<lambda>i. [Reader i, Reader i]) [0..<128]))
     = \<lparr>m_root_lock = 128, readers = replicate 128 R_holding, writer = W_idle\<rparr>"
  by code_simp

subsection \<open>Root advance\<close>

lemma take_child_nodes:
  "take_child cs m = (r, cs') \<Longrightarrow>
   nodes_of_list cs = (case r of Some c \<Rightarrow> nodes_of c | None \<Rightarrow> {#}) + nodes_of_list cs'"
  by (induction cs arbitrary: r cs')
     (auto simp: nodes_of_list_def split: if_splits prod.splits option.splits)

lemma nodes_of_children:
  "nodes_of (UCTNode m p v l cs) = {#(m, p, v, l)#} + nodes_of_list cs"
  by (simp add: nodes_of_list_def)

lemma find_child_nodes:
  "find_child t m = (r, t') \<Longrightarrow>
   nodes_of t = (case r of Some c \<Rightarrow> nodes_of c | None \<Rightarrow> {#}) + nodes_of t'"
  by (cases t) (auto simp: nodes_of_children simp del: nodes_of.simps
        split: prod.splits dest!: take_child_nodes)

lemma nodes_of_list_append [simp]:
  "nodes_of_list (xs @ ys) = nodes_of_list xs + nodes_of_list ys"
  by (simp add: nodes_of_list_def)

lemma nodes_of_list_Nil [simp]: "nodes_of_list [] = {#}"
  by (simp add: nodes_of_list_def)

lemma nodes_of_list_single [simp]: "nodes_of_list [t] = nodes_of t"
  by (simp add: nodes_of_list_def)

lemma replay_moves_nodes:
  "replay_moves ops n test t lastst td = (test', r, lastst', td') \<Longrightarrow>
   nodes_of_list td' + (case r of Some c \<Rightarrow> nodes_of c | None \<Rightarrow> {#})
     = nodes_of_list td + nodes_of t"
proof (induction n arbitrary: test t lastst td)
  case 0
  then show ?case by auto
next
  case (Suc n)
  show ?case
  proof (cases "find_child t (gs_last_move ops (gs_forward_move ops test))")
    case (Pair c oldroot)
    show ?thesis
    proof (cases c)
      case None
      with Pair Suc.prems find_child_nodes [OF Pair] show ?thesis
        by (auto simp: Let_def)
    next
      case (Some child)
      with Pair Suc.prems have
        "replay_moves ops n (gs_forward_move ops test) child
           (gs_play_move ops lastst (gs_last_move ops (gs_forward_move ops test)))
           (td @ [oldroot]) = (test', r, lastst', td')"
        by (simp add: Let_def)
      from Suc.IH [OF this] find_child_nodes [OF Pair] Some show ?thesis
        by (simp add: ac_simps)
    qed
  qed
qed

lemma advance_nodes:
  assumes "advance_to_new_rootstate ops nd s [] = Inr (ok, s1, td1)"
  shows "nodes_of_list td1 + (case m_root s1 of Some c \<Rightarrow> nodes_of c | None \<Rightarrow> {#})
           = (case m_root s of Some c \<Rightarrow> nodes_of c | None \<Rightarrow> {#})
         \<and> m_pending_counter s1 = m_pending_counter s
         \<and> m_delete_futures s1 = m_delete_futures s
         \<and> counter_heap s1 = counter_heap s
         \<and> m_gtpstate s1 = m_gtpstate s \<and> m_rootstate s1 = m_rootstate s"
  using assms unfolding advance_to_new_rootstate_def Let_def
  by (auto split: option.splits if_splits prod.splits dest!: replay_moves_nodes)

lemma update_root_discards:
  assumes adv: "advance_to_new_rootstate ops nd (s\<lparr>m_rootstate := m_gtpstate s\<rparr>) []
                = Inr (False, s1, td1)"
    and rt: "m_root s = Some t"
    and pc: "m_pending_counter s = Some pc"
  shows "\<exists>to_delete s'.
           update_root ops nd s = Inr s'
           \<and> m_root s' = Some fresh_root
           \<and> m_delete_futures s' = m_delete_futures s @ [(to_delete, pc)]
           \<and> nodes_of_list to_delete = nodes_of t"
proof -
  from advance_nodes [OF adv] rt pc have
    n: "nodes_of_list td1 + (case m_root s1 of Some c \<Rightarrow> nodes_of c | None \<Rightarrow> {#}) = nodes_of t"
    and p: "m_pending_counter s1 = Some pc"
    and f: "m_delete_futures s1 = m_delete_futures s"
    by simp_all
  let ?td = "(case m_root s1 of Some r \<Rightarrow> td1 @ [r] | None \<Rightarrow> td1)"
  from n have nn: "nodes_of_list ?td = nodes_of t" by (cases "m_root s1") simp_all
  have ne: "?td \<noteq> []"
  proof
    assume "?td = []"
    with nn have "nodes_of t = {#}" by simp
    then show False by (cases t) simp
  qed
  from adv p f ne nn show ?thesis
    unfolding update_root_def Let_def by simp
qed

lemma advance_fails:
  assumes rt: "m_root s = Some t" and lst: "m_last_rootstate s = Some l"
    and reason:
      "gs_komi ops (m_rootstate s) \<noteq> gs_komi ops l
       \<or> gs_movenum ops (m_rootstate s) < gs_movenum ops l
       \<or> gs_hash ops l \<noteq> gs_hash ops
            ((gs_undo_move ops ^^ replay_depth ops (m_rootstate s) l) (m_rootstate s))
       \<or> (case replay_moves ops (replay_depth ops (m_rootstate s) l)
                 ((gs_undo_move ops ^^ replay_depth ops (m_rootstate s) l) (m_rootstate s))
                 t l [] of
             (test', root', lastst', to_delete') \<Rightarrow>
               root' = None
               \<or> (nd \<or> gs_movenum ops (m_rootstate s) = gs_movenum ops lastst')
                  \<and> gs_hash ops lastst' \<noteq> gs_hash ops test')"
  shows "\<exists>s1 td1. advance_to_new_rootstate ops nd s [] = Inr (False, s1, td1)"
  using rt lst reason unfolding advance_to_new_rootstate_def Let_def
  by (auto split: prod.splits)

text \<open>
  C5. Let the search have a tree and a last root state, and a pending counter (which it
  has once \<open>update_root\<close> has run, and the last root state is only set after that). If the
  komi of the game differs from that of the last root state, or the move number of the
  game is behind, or the board hash of the last root state differs from the game taken
  back to that move number, or the replay of the moves meets a move without a child in
  the tree or ends in a different board hash, then \<open>update_root\<close> returns normally, the
  root is a fresh node, and one deletion task is queued, whose nodes are exactly the
  nodes of the old tree.
\<close>

theorem update_root_discards_on_mismatch:
  assumes rt: "m_root s = Some t" and lst: "m_last_rootstate s = Some l"
    and pc: "m_pending_counter s = Some pc"
    and reason:
      "gs_komi ops (m_gtpstate s) \<noteq> gs_komi ops l
       \<or> gs_movenum ops (m_gtpstate s) < gs_movenum ops l
       \<or> gs_hash ops l \<noteq> gs_hash ops
            ((gs_undo_move ops ^^ replay_depth ops (m_gtpstate s) l) (m_gtpstate s))
       \<or> (case replay_moves ops (replay_depth ops (m_gtpstate s) l)
                 ((gs_undo_move ops ^^ replay_depth ops (m_gtpstate s) l) (m_gtpstate s))
                 t l [] of
             (test', root', lastst', to_delete') \<Rightarrow>
               root' = None
               \<or> (nd \<or> gs_movenum ops (m_gtpstate s) = gs_movenum ops lastst')
                  \<and> gs_hash ops lastst' \<noteq> gs_hash ops test')"
  shows "\<exists>to_delete s'.
           update_root ops nd s = Inr s'
           \<and> m_root s' = Some fresh_root
           \<and> m_delete_futures s' = m_delete_futures s @ [(to_delete, pc)]
           \<and> nodes_of_list to_delete = nodes_of t"
proof -
  let ?s = "s\<lparr>m_rootstate := m_gtpstate s\<rparr>"
  have "\<exists>s1 td1. advance_to_new_rootstate ops nd ?s [] = Inr (False, s1, td1)"
    using rt lst reason by (intro advance_fails [where t = t and l = l]) simp_all
  then obtain s1 td1 where
    "advance_to_new_rootstate ops nd ?s [] = Inr (False, s1, td1)" by blast
  from update_root_discards [OF this rt pc] show ?thesis .
qed

text \<open>Witness for C5, from a tree whose root has the one child for vertex 5: the game
  has played vertex 3 instead, and the old tree is queued whole; and the game has played
  vertex 5 but with another komi.\<close>

theorem update_root_discards_on_mismatch_witness:
  "update_root simple_game_ops False (example_search (7.5, [Vertex 3], []))
     = Inr \<lparr>m_gtpstate = (7.5, [Vertex 3], []),
      m_rootstate = (7.5, [Vertex 3], []),
      m_last_rootstate = None,
      m_root = Some fresh_root,
      m_pending_counter = Some 1,
      counter_heap = [0, 0],
      m_delete_futures = [([UCTNode PASS 0 100 0 [UCTNode (Vertex 5) 0.5 60 0 []]], 0)],
      m_playouts = 0,
      m_positions = 0,
      m_root_prepared = False,
      m_run = True\<rparr>
   \<and> (\<exists>to_delete s'.
         update_root simple_game_ops False (example_search (6.5, [Vertex 5], [])) = Inr s'
         \<and> m_root s' = Some fresh_root
         \<and> m_delete_futures s' = [(to_delete, 0)]
         \<and> nodes_of_list to_delete
             = nodes_of (UCTNode PASS 0 100 0 [UCTNode (Vertex 5) 0.5 60 0 []]))"
proof -
  let ?t = "UCTNode PASS 0 100 0 [UCTNode (Vertex 5) 0.5 60 0 []]"
  let ?s = "example_search (7.5, [Vertex 3], [])"
  let ?k = "example_search (6.5, [Vertex 5], [])"
  have u: "update_root simple_game_ops False ?s
     = Inr \<lparr>m_gtpstate = (7.5, [Vertex 3], []),
      m_rootstate = (7.5, [Vertex 3], []),
      m_last_rootstate = None,
      m_root = Some fresh_root,
      m_pending_counter = Some 1,
      counter_heap = [0, 0],
      m_delete_futures = [([UCTNode PASS 0 100 0 [UCTNode (Vertex 5) 0.5 60 0 []]], 0)],
      m_playouts = 0,
      m_positions = 0,
      m_root_prepared = False,
      m_run = True\<rparr>"
    by (simp add: update_root_def advance_to_new_rootstate_def example_search_def
          simple_game_ops_def replay_depth_def Let_def)
  have rt: "m_root ?k = Some ?t" by (simp add: example_search_def)
  have lst: "m_last_rootstate ?k = Some (7.5, [], [])" by (simp add: example_search_def)
  have pc: "m_pending_counter ?k = Some 0" by (simp add: example_search_def)
  have komi: "gs_komi simple_game_ops (m_gtpstate ?k) \<noteq> gs_komi simple_game_ops (7.5, [], [])"
    by (simp add: example_search_def simple_game_ops_def)
  have f: "m_delete_futures ?k = []" by (simp add: example_search_def)
  from update_root_discards_on_mismatch [OF rt lst pc disjI1 [OF komi], of False] u f
  show ?thesis by simp
qed


subsection \<open>Deletion of detached nodes\<close>






subsection \<open>Virtual loss removed by a backup\<close>

lemma length_map_node [simp]: "length (nodes (map_node p f s)) = length (nodes s)"
  by (simp add: map_node_def)

lemma nth_map_node:
  "q < length (nodes s) \<Longrightarrow>
   nodes (map_node p f s) ! q = (if q = p then f (nodes s ! q) else nodes s ! q)"
  by (simp add: map_node_def nth_list_update)

lemma pending_map_node [simp]: "pending_counter (map_node p f s) = pending_counter s"
  by (simp add: map_node_def)

lemma length_update [simp]: "length (nodes (update p e vl f sf s)) = length (nodes s)"
  by (simp add: update_def)

lemma pending_update [simp]: "pending_counter (update p e vl f sf s) = pending_counter s"
  by (simp add: update_def)

lemma vl_update:
  "q < length (nodes s) \<Longrightarrow>
   m_virtual_loss (nodes (update p e vl f sf s) ! q)
     = m_virtual_loss (nodes s ! q) - (if q = p then int vl else 0)"
  by (simp add: update_def nth_map_node)

lemma length_virtual_loss_undo [simp]:
  "length (nodes (virtual_loss_undo p vl s)) = length (nodes s)"
  by (simp add: virtual_loss_undo_def)

lemma length_virtual_loss [simp]:
  "length (nodes (virtual_loss p vl s)) = length (nodes s)"
  by (simp add: virtual_loss_def)

lemma pending_virtual_loss_undo [simp]:
  "pending_counter (virtual_loss_undo p vl s) = pending_counter s"
  by (simp add: virtual_loss_undo_def)

lemma pending_virtual_loss [simp]:
  "pending_counter (virtual_loss p vl s) = pending_counter s"
  by (simp add: virtual_loss_def)

lemma vl_virtual_loss_undo:
  "q < length (nodes s) \<Longrightarrow>
   m_virtual_loss (nodes (virtual_loss_undo p vl s) ! q)
     = m_virtual_loss (nodes s ! q) - (if q = p then int vl else 0)"
  by (simp add: virtual_loss_undo_def nth_map_node)

lemma vl_virtual_loss:
  "q < length (nodes s) \<Longrightarrow>
   m_virtual_loss (nodes (virtual_loss p vl s) ! q)
     = m_virtual_loss (nodes s ! q) + (if q = p then int vl else 0)"
  by (simp add: virtual_loss_def nth_map_node)

lemma backup_loop_length [simp]:
  "length (nodes (backup_loop e vl f nfs s)) = length (nodes s)"
  by (induction nfs arbitrary: f s) (auto simp: Let_def)

lemma backup_loop_pending [simp]:
  "pending_counter (backup_loop e vl f nfs s) = pending_counter s"
  by (induction nfs arbitrary: f s) (auto simp: Let_def)

lemma backup_loop_vl:
  "distinct (map fst nfs) \<Longrightarrow> q < length (nodes s) \<Longrightarrow>
   m_virtual_loss (nodes (backup_loop e vl f nfs s) ! q)
     = m_virtual_loss (nodes s ! q) - (if q \<in> fst ` set nfs then int vl else 0)"
proof (induction nfs arbitrary: f s)
  case Nil
  then show ?case by simp
next
  case (Cons nf nfs)
  obtain p pf where nf: "nf = (p, pf)" by (cases nf)
  from Cons.prems nf have d: "distinct (map fst nfs)" and np: "p \<notin> fst ` set nfs" by auto
  have q: "q < length (nodes (update p e vl f (f * pf) s))" using Cons.prems by simp
  from Cons.IH [OF d q] nf np Cons.prems(2) show ?case
    by (auto simp: Let_def vl_update)
qed

lemma failed_loop_length [simp]:
  "length (nodes (failed_loop incr vl nfs s)) = length (nodes s)"
  by (induction nfs arbitrary: s) auto

lemma failed_loop_pending [simp]:
  "pending_counter (failed_loop incr vl nfs s) = pending_counter s"
  by (induction nfs arbitrary: s) auto

lemma failed_loop_vl:
  "distinct (map fst nfs) \<Longrightarrow> q < length (nodes s) \<Longrightarrow>
   m_virtual_loss (nodes (failed_loop incr vl nfs s) ! q)
     = m_virtual_loss (nodes s ! q)
       + (if q \<in> fst ` set nfs then (if incr then int vl else - int vl) else 0)"
proof (induction nfs arbitrary: s)
  case Nil
  then show ?case by simp
next
  case (Cons nf nfs)
  obtain p pf where nf: "nf = (p, pf)" by (cases nf)
  from Cons.prems nf have d: "distinct (map fst nfs)" and np: "p \<notin> fst ` set nfs" by auto
  let ?s1 = "if incr then virtual_loss p vl s else virtual_loss_undo p vl s"
  have q: "q < length (nodes ?s1)" using Cons.prems by simp
  from Cons.IH [OF d q] nf np Cons.prems(2) show ?case
    by (auto simp: vl_virtual_loss vl_virtual_loss_undo)
qed

lemma failed_simulation_vl:
  assumes "distinct (map fst (path bd))" and "q < length (nodes s)"
  shows "m_virtual_loss (nodes (failed_simulation bd vl False s) ! q)
           = m_virtual_loss (nodes s ! q) - (if q \<in> fst ` set (path bd) then int vl else 0)"
  using failed_loop_vl [of "rev (path bd)" q s False vl] assms
  by (simp add: failed_simulation_def Let_def distinct_rev rev_map [symmetric])

lemma length_create_children [simp]:
  "length (nodes (create_children p legal s)) = length (nodes s) + length legal"
  by (simp add: create_children_def Let_def)

lemma nth_create_children:
  "q < length (nodes s) \<Longrightarrow>
   nodes (create_children p legal s) ! q
     = (if q = p
        then (nodes s ! q)\<lparr>m_children :=
               [length (nodes s) ..< length (nodes s) + length legal]\<rparr>
        else nodes s ! q)"
  by (simp add: create_children_def Let_def nth_map_node nth_append)

lemma pending_create_children [simp]:
  "pending_counter (create_children p legal s) = pending_counter s"
  by (simp add: create_children_def Let_def)

lemma length_release_writer [simp]:
  "length (nodes (release_writer p s)) = length (nodes s)"
  by (simp add: release_writer_def)

lemma pending_release_writer [simp]:
  "pending_counter (release_writer p s) = pending_counter s"
  by (simp add: release_writer_def)

lemma vl_release_writer:
  "q < length (nodes s) \<Longrightarrow>
   m_virtual_loss (nodes (release_writer p s) ! q) = m_virtual_loss (nodes s ! q)"
  by (simp add: release_writer_def nth_map_node)

lemma acc_release_writer:
  "q < length (nodes s) \<Longrightarrow>
   m_accumulated_vl (nodes (release_writer p s) ! q) = m_accumulated_vl (nodes s ! q)"
  by (simp add: release_writer_def nth_map_node)

lemma acc_update:
  "q < length (nodes s) \<Longrightarrow>
   m_accumulated_vl (nodes (update p e vl f sf s) ! q) = m_accumulated_vl (nodes s ! q)"
  by (simp add: update_def nth_map_node)

lemma acc_virtual_loss_undo:
  "q < length (nodes s) \<Longrightarrow>
   m_accumulated_vl (nodes (virtual_loss_undo p vl s) ! q) = m_accumulated_vl (nodes s ! q)"
  by (simp add: virtual_loss_undo_def nth_map_node)

lemma acc_virtual_loss:
  "q < length (nodes s) \<Longrightarrow>
   m_accumulated_vl (nodes (virtual_loss p vl s) ! q) = m_accumulated_vl (nodes s ! q)"
  by (simp add: virtual_loss_def nth_map_node)

lemma backup_loop_acc:
  "q < length (nodes s) \<Longrightarrow>
   m_accumulated_vl (nodes (backup_loop e vl f nfs s) ! q) = m_accumulated_vl (nodes s ! q)"
proof (induction nfs arbitrary: f s)
  case Nil
  then show ?case by simp
next
  case (Cons nf nfs)
  obtain p pf where nf: "nf = (p, pf)" by (cases nf)
  have q: "q < length (nodes (update p e vl f (f * pf) s))" using Cons.prems by simp
  from Cons.IH [OF q] nf Cons.prems show ?case
    by (simp add: Let_def acc_update)
qed

lemma failed_loop_acc:
  "q < length (nodes s) \<Longrightarrow>
   m_accumulated_vl (nodes (failed_loop incr vl nfs s) ! q) = m_accumulated_vl (nodes s ! q)"
proof (induction nfs arbitrary: s)
  case Nil
  then show ?case by simp
next
  case (Cons nf nfs)
  obtain p pf where nf: "nf = (p, pf)" by (cases nf)
  let ?s1 = "if incr then virtual_loss p vl s else virtual_loss_undo p vl s"
  have q: "q < length (nodes ?s1)" using Cons.prems by simp
  from Cons.IH [OF q] nf Cons.prems show ?case
    by (simp add: acc_virtual_loss acc_virtual_loss_undo)
qed

text \<open>What the backup of an expansion removes. The accumulated count of the expanded
  node is exchanged for 0, and just that many units of virtual loss are removed at every
  node of the recorded path, by \<open>update\<close> on a first visit and by \<open>virtual_loss_undo\<close>
  otherwise, and none at any other node; the pending counter is decremented by one.\<close>

lemma backup_netresult_effect:
  assumes p: "path bd = pre @ [(leaf, lf)]"
    and d: "distinct (map fst (path bd))"
    and lv: "leaf < length (nodes s)"
    and q: "q < length (nodes s)"
  shows "m_virtual_loss (nodes (fst (backup_netresult nr bd s)) ! q)
           = m_virtual_loss (nodes s ! q)
             - (if q \<in> fst ` set (path bd) then int (m_accumulated_vl (nodes s ! leaf)) else 0)"
    and "m_accumulated_vl (nodes (fst (backup_netresult nr bd s)) ! leaf) = 0"
    and "pending_counter (fst (backup_netresult nr bd s)) = pending_counter s - 1"
proof -
  let ?vl = "m_accumulated_vl (nodes s ! leaf)"
  let ?s1 = "create_children leaf (legal_moves nr) s"
  let ?s2 = "map_node leaf (\<lambda>n. n\<lparr>m_accumulated_vl := 0\<rparr>) ?s1"
  have vl1: "m_accumulated_vl (nodes ?s1 ! leaf) = ?vl"
    using lv by (simp add: nth_create_children)
  have q1: "q < length (nodes ?s1)" and l1: "leaf < length (nodes ?s1)" using q lv by simp_all
  have vq2: "m_virtual_loss (nodes ?s2 ! q) = m_virtual_loss (nodes s ! q)"
    using q q1 by (simp add: nth_map_node nth_create_children)
  have a2: "m_accumulated_vl (nodes ?s2 ! leaf) = 0"
    using l1 by (simp add: nth_map_node)
  have q2: "q < length (nodes ?s2)" and l2: "leaf < length (nodes ?s2)" using q lv by simp_all
  have np: "leaf \<notin> fst ` set pre" using p d by auto
  have dp: "distinct (map fst (rev pre))" using p d by (simp add: distinct_rev rev_map [symmetric])
  show "m_virtual_loss (nodes (fst (backup_netresult nr bd s)) ! q)
           = m_virtual_loss (nodes s ! q)
             - (if q \<in> fst ` set (path bd) then int ?vl else 0)"
  proof (cases "m_visits (nodes s ! leaf) = 0")
    case True
    let ?bd1 = "bd\<lparr>eval := (if state_to_move bd = BLACK then winrate nr else 1 - winrate nr)\<rparr>"
    let ?s3 = "update leaf (eval ?bd1) ?vl 1 lf ?s2"
    let ?s4 = "(if length (path bd) = 1 \<and> \<not> root_prepared ?s3
                then (prepare_root_node leaf ?s3)\<lparr>root_prepared := True\<rparr> else ?s3)"
    let ?s5 = "release_writer leaf ?s4"
    have q3: "q < length (nodes ?s3)" using q2 by simp
    have v3: "m_virtual_loss (nodes ?s3 ! q)
                = m_virtual_loss (nodes s ! q) - (if q = leaf then int ?vl else 0)"
      using vq2 q2 by (simp add: vl_update)
    have q4: "q < length (nodes ?s4)" using q3 by (simp add: prepare_root_node_def)
    have v4: "m_virtual_loss (nodes ?s4 ! q) = m_virtual_loss (nodes ?s3 ! q)"
      by (simp add: prepare_root_node_def)
    have q5: "q < length (nodes ?s5)" using q4 by simp
    have v5: "m_virtual_loss (nodes ?s5 ! q) = m_virtual_loss (nodes ?s3 ! q)"
      using q4 v4 by (simp add: vl_release_writer)
    have v6: "m_virtual_loss (nodes (backup_loop (eval ?bd1) ?vl lf (rev pre) ?s5) ! q)
                = m_virtual_loss (nodes ?s5 ! q) - (if q \<in> fst ` set pre then int ?vl else 0)"
      using backup_loop_vl [OF dp q5, of "eval ?bd1" ?vl lf] by simp
    have "fst (backup_netresult nr bd s)
            = (let s6 = backup_vl ?bd1 ?vl ?s5 in s6\<lparr>playouts := playouts s6 + 1\<rparr>)"
      using True p vl1 by (simp add: backup_netresult_def Let_def)
    then show ?thesis
      using v6 v5 v3 p np by (auto simp: backup_vl_def Let_def)
  next
    case False
    let ?s4 = "(if length (path bd) = 1 \<and> \<not> root_prepared ?s2
                then (prepare_root_node leaf ?s2)\<lparr>root_prepared := True\<rparr> else ?s2)"
    let ?s5 = "release_writer leaf ?s4"
    have q4: "q < length (nodes ?s4)" using q2 by (simp add: prepare_root_node_def)
    have v4: "m_virtual_loss (nodes ?s4 ! q) = m_virtual_loss (nodes ?s2 ! q)"
      by (simp add: prepare_root_node_def)
    have q5: "q < length (nodes ?s5)" using q4 by simp
    have v5: "m_virtual_loss (nodes ?s5 ! q) = m_virtual_loss (nodes s ! q)"
      using q4 v4 vq2 by (simp add: vl_release_writer)
    have "fst (backup_netresult nr bd s)
            = (let s6 = failed_simulation bd ?vl False ?s5 in s6\<lparr>playouts := playouts s6 + 1\<rparr>)"
      using False p vl1 by (simp add: backup_netresult_def Let_def)
    then show ?thesis
      using failed_simulation_vl [OF d q5, of ?vl] v5 by (simp add: Let_def)
  qed
  show "m_accumulated_vl (nodes (fst (backup_netresult nr bd s)) ! leaf) = 0"
  proof (cases "m_visits (nodes s ! leaf) = 0")
    case True
    let ?bd1 = "bd\<lparr>eval := (if state_to_move bd = BLACK then winrate nr else 1 - winrate nr)\<rparr>"
    let ?s3 = "update leaf (eval ?bd1) ?vl 1 lf ?s2"
    let ?s4 = "(if length (path bd) = 1 \<and> \<not> root_prepared ?s3
                then (prepare_root_node leaf ?s3)\<lparr>root_prepared := True\<rparr> else ?s3)"
    let ?s5 = "release_writer leaf ?s4"
    have l3: "leaf < length (nodes ?s3)" using l2 by simp
    have a3: "m_accumulated_vl (nodes ?s3 ! leaf) = 0" using a2 l2 by (simp add: acc_update)
    have l4: "leaf < length (nodes ?s4)" using l3 by (simp add: prepare_root_node_def)
    have a4: "m_accumulated_vl (nodes ?s4 ! leaf) = 0" using a3 by (simp add: prepare_root_node_def)
    have l5: "leaf < length (nodes ?s5)" using l4 by simp
    have a5: "m_accumulated_vl (nodes ?s5 ! leaf) = 0" using a4 l4 by (simp add: acc_release_writer)
    have a6: "m_accumulated_vl (nodes (backup_loop (eval ?bd1) ?vl lf (rev pre) ?s5) ! leaf) = 0"
      using backup_loop_acc [OF l5] a5 by simp
    have "fst (backup_netresult nr bd s)
            = (let s6 = backup_vl ?bd1 ?vl ?s5 in s6\<lparr>playouts := playouts s6 + 1\<rparr>)"
      using True p vl1 by (simp add: backup_netresult_def Let_def)
    then show ?thesis
      using a6 p by (simp add: backup_vl_def Let_def)
  next
    case False
    let ?s4 = "(if length (path bd) = 1 \<and> \<not> root_prepared ?s2
                then (prepare_root_node leaf ?s2)\<lparr>root_prepared := True\<rparr> else ?s2)"
    let ?s5 = "release_writer leaf ?s4"
    have l4: "leaf < length (nodes ?s4)" using l2 by (simp add: prepare_root_node_def)
    have a4: "m_accumulated_vl (nodes ?s4 ! leaf) = 0" using a2 by (simp add: prepare_root_node_def)
    have l5: "leaf < length (nodes ?s5)" using l4 by simp
    have a5: "m_accumulated_vl (nodes ?s5 ! leaf) = 0" using a4 l4 by (simp add: acc_release_writer)
    have a6: "m_accumulated_vl (nodes (failed_loop False ?vl (rev (path bd)) ?s5) ! leaf) = 0"
      using failed_loop_acc [OF l5] a5 by simp
    have "fst (backup_netresult nr bd s)
            = (let s6 = failed_simulation bd ?vl False ?s5 in s6\<lparr>playouts := playouts s6 + 1\<rparr>)"
      using False p vl1 by (simp add: backup_netresult_def Let_def)
    then show ?thesis
      using a6 by (simp add: failed_simulation_def Let_def)
  qed
  show "pending_counter (fst (backup_netresult nr bd s)) = pending_counter s - 1"
    using p by (simp add: backup_netresult_def Let_def backup_vl_def failed_simulation_def
          prepare_root_node_def)
qed

subsection \<open>Simulations that reach the end of the game\<close>

lemma marks_update:
  "q < length (nodes s) \<Longrightarrow>
   node_marks (nodes (update p e vl f sf s) ! q) = node_marks (nodes s ! q)"
  by (simp add: update_def nth_map_node node_marks_def)

lemma backup_loop_marks:
  "q < length (nodes s) \<Longrightarrow>
   node_marks (nodes (backup_loop e vl f nfs s) ! q) = node_marks (nodes s ! q)"
proof (induction nfs arbitrary: f s)
  case Nil
  then show ?case by simp
next
  case (Cons nf nfs)
  obtain p pf where nf: "nf = (p, pf)" by (cases nf)
  have q: "q < length (nodes (update p e vl f (f * pf) s))" using Cons.prems by simp
  from Cons.IH [OF q] nf Cons.prems show ?case
    by (simp add: Let_def marks_update)
qed

lemma backup_loop_other:
  "q \<notin> fst ` set nfs \<Longrightarrow> nodes (backup_loop e vl f nfs s) ! q = nodes s ! q"
proof (induction nfs arbitrary: f s)
  case Nil
  then show ?case by simp
next
  case (Cons nf nfs)
  obtain p pf where nf: "nf = (p, pf)" by (cases nf)
  from Cons.prems nf have 1: "q \<notin> fst ` set nfs" and 2: "q \<noteq> p" by auto
  from Cons.IH [OF 1] nf 2 show ?case
    by (simp add: Let_def update_def map_node_def)
qed

lemma eval_from_score_cases:
  "eval_from_score x = (if x > 0 then 1 else if x < 0 then 0 else 1 / 2)"
  by (simp add: eval_from_score_def)

text \<open>
  C8 (as amended). When a simulation reaches a state with two or more passes, it ends
  at once, without a request to the network: the evaluation is 1 if the final score is
  positive, 0 if it is negative and one half otherwise, and it is backed up along the
  recorded path, the last node included, with one unit of virtual loss removed at each.
  The node, if it is not already on the path, gains its factor in visits and the
  evaluation times its factor in value. No node is created, and in every node the move,
  the cached network evaluation, the accumulated count, the expansion state and the
  children stay as they were: the node gets no children, and nothing marks it as
  terminal.
\<close>

theorem terminal_simulation_backs_up_score:
  assumes "sg_passes ops g \<ge> 2"
  shows "\<exists>s'. play_simulation ops pick (Suc n) g node factor is_root bd0 s = Some (s', Finished)
     \<and> s' = backup_vl
              (bd0\<lparr>path := path bd0 @ [(node, factor)],
                   eval := (if sg_final_score ops g > 0 then 1
                            else if sg_final_score ops g < 0 then 0 else 1 / 2)\<rparr>) 1
              (update node (if sg_final_score ops g > 0 then 1
                            else if sg_final_score ops g < 0 then 0 else 1 / 2) 1 1 factor s)
     \<and> length (nodes s') = length (nodes s)
     \<and> (\<forall>q < length (nodes s). node_marks (nodes s' ! q) = node_marks (nodes s ! q))
     \<and> (node < length (nodes s) \<and> node \<notin> fst ` set (path bd0) \<longrightarrow>
          m_visits (nodes s' ! node) = m_visits (nodes s ! node) + factor
          \<and> value_sum (nodes s' ! node)
              = value_sum (nodes s ! node)
                + (if sg_final_score ops g > 0 then 1
                   else if sg_final_score ops g < 0 then 0 else 1 / 2) * factor
          \<and> m_virtual_loss (nodes s' ! node) = m_virtual_loss (nodes s ! node) - 1)"
proof -
  define e :: real where
    "e = (if sg_final_score ops g > 0 then 1 else if sg_final_score ops g < 0 then 0 else 1 / 2)"
  define bd where "bd = bd0\<lparr>path := path bd0 @ [(node, factor)], eval := e\<rparr>"
  define s1 where "s1 = update node e 1 1 factor s"
  define s' where "s' = backup_vl bd 1 s1"
  have r: "play_simulation ops pick (Suc n) g node factor is_root bd0 s = Some (s', Finished)"
    using assms by (simp add: Let_def eval_from_score_cases s'_def s1_def bd_def e_def)
  have s': "s' = (backup_loop e 1 factor (rev (path bd0)) s1)
                    \<lparr>pending_counter := pending_counter s1 - 1\<rparr>"
    by (simp add: s'_def bd_def backup_vl_def Let_def)
  have len1: "length (nodes s1) = length (nodes s)" by (simp add: s1_def)
  have len: "length (nodes s') = length (nodes s)" by (simp add: s' len1)
  have marks: "\<forall>q < length (nodes s). node_marks (nodes s' ! q) = node_marks (nodes s ! q)"
    by (simp add: s' backup_loop_marks len1) (simp add: s1_def marks_update)
  have leaf: "node \<notin> fst ` set (path bd0) \<longrightarrow> nodes s' ! node = nodes s1 ! node"
    by (simp add: s' backup_loop_other)
  have upd: "node < length (nodes s) \<longrightarrow>
          m_visits (nodes s1 ! node) = m_visits (nodes s ! node) + factor
          \<and> value_sum (nodes s1 ! node) = value_sum (nodes s ! node) + e * factor
          \<and> m_virtual_loss (nodes s1 ! node) = m_virtual_loss (nodes s ! node) - 1"
    by (simp add: s1_def update_def nth_map_node)
  from r len marks leaf upd have
    "play_simulation ops pick (Suc n) g node factor is_root bd0 s = Some (s', Finished)
     \<and> s' = backup_vl (bd0\<lparr>path := path bd0 @ [(node, factor)], eval := e\<rparr>) 1
              (update node e 1 1 factor s)
     \<and> length (nodes s') = length (nodes s)
     \<and> (\<forall>q < length (nodes s). node_marks (nodes s' ! q) = node_marks (nodes s ! q))
     \<and> (node < length (nodes s) \<and> node \<notin> fst ` set (path bd0) \<longrightarrow>
          m_visits (nodes s' ! node) = m_visits (nodes s ! node) + factor
          \<and> value_sum (nodes s' ! node) = value_sum (nodes s ! node) + e * factor
          \<and> m_virtual_loss (nodes s' ! node) = m_virtual_loss (nodes s ! node) - 1)"
    by (simp add: s'_def bd_def s1_def)
  then show ?thesis unfolding e_def by (rule exI)
qed

text \<open>Witness for C8: the child of the example store is reached after two passes with
  a final score of -2; the evaluation 0 is backed up to both nodes.\<close>

theorem terminal_simulation_backs_up_score_witness:
  "play_simulation simple_sim_ops (\<lambda>s p c r. None) 1 (2, - 2) 1 1 False
     \<lparr>path = [(0, 1)], eval = 0, state_to_move = BLACK\<rparr> (example_nodes 1 0 IDLE)
   = Some (\<lparr>nodes =
        [\<lparr>m_move = PASS, m_visits = 11, value_sum = 5, net_eval = 0.5,
          m_virtual_loss = 0, m_accumulated_vl = 0, node_state = READY,
          m_children = [1]\<rparr>,
         \<lparr>m_move = Vertex 4, m_visits = 1, value_sum = 0, net_eval = 0,
          m_virtual_loss = 0, m_accumulated_vl = 0, node_state = IDLE,
          m_children = []\<rparr>],
      pending_counter = 2,
      root_prepared = True,
      playouts = 10\<rparr>, Finished)"
proof -
  have h: "sg_passes simple_sim_ops (2, - 2) \<ge> 2" by (simp add: simple_sim_ops_def)
  from terminal_simulation_backs_up_score [OF h, of "\<lambda>s p c r. None" 0 1 1 False
      "\<lparr>path = [(0, 1)], eval = 0, state_to_move = BLACK\<rparr>" "example_nodes 1 0 IDLE"]
  show ?thesis
    by (simp add: simple_sim_ops_def example_nodes_def backup_vl_def update_def map_node_def
          Let_def)
qed

text \<open>
  Counterexample for C8 as stated: the same descent with a final score of 3. The
  evaluation 1 is backed up, and the node is left in the state \<open>IDLE\<close> in which it was,
  the state of a node that nobody has expanded; it carries no mark of being terminal.
\<close>

theorem terminal_simulation_counterexample:
  "play_simulation simple_sim_ops (\<lambda>s p c r. None) 1 (2, 3) 1 1 False
     \<lparr>path = [(0, 1)], eval = 0, state_to_move = BLACK\<rparr> (example_nodes 1 0 IDLE)
   = Some (\<lparr>nodes =
        [\<lparr>m_move = PASS, m_visits = 11, value_sum = 6, net_eval = 0.5,
          m_virtual_loss = 0, m_accumulated_vl = 0, node_state = READY,
          m_children = [1]\<rparr>,
         \<lparr>m_move = Vertex 4, m_visits = 1, value_sum = 1, net_eval = 0,
          m_virtual_loss = 0, m_accumulated_vl = 0, node_state = IDLE,
          m_children = []\<rparr>],
      pending_counter = 2,
      root_prepared = True,
      playouts = 10\<rparr>, Finished)
   \<and> node_state (nodes (example_nodes 1 0 IDLE) ! 1) = IDLE"
  by (simp add: simple_sim_ops_def example_nodes_def backup_vl_def update_def map_node_def
        eval_from_score_def Let_def)


end
